theory Spec2Isabelle
  imports Main "HOL-Library.Word"
begin

section \<open>The DDL worker of ddl/ddl\_worker.go\<close>

subsection \<open>Jobs\<close>

text \<open>
  Modelled from the spec: the job record of package \<open>model\<close>, which is not part of the
  sources at hand. The enumerations and the fields of a job are those of section 3 of the
  specification; \<open>JobStateNone\<close> is the state the specification calls Queued, and
  \<open>ActionNone\<close> stands for every type tag that has no case in the dispatch switch of
  \<open>runDDLJob\<close>. \<open>BinlogInfo\<close> is taken to be present in every job, as every job is
  created with one.
\<close>

datatype action_type =
    ActionNone
  | ActionCreateSchema
  | ActionDropSchema
  | ActionCreateTable
  | ActionDropTable
  | ActionAddColumn
  | ActionDropColumn
  | ActionModifyColumn
  | ActionAddIndex
  | ActionDropIndex
  | ActionAddForeignKey
  | ActionDropForeignKey
  | ActionTruncateTable
  | ActionRebaseAutoID
  | ActionRenameTable
  | ActionSetDefaultValue
  | ActionShardRowID
  | ActionModifyTableComment
  | ActionRenameIndex

datatype job_state =
    JobStateNone
  | JobStateRunning
  | JobStateRollingback
  | JobStateRollbackDone
  | JobStateDone
  | JobStateCancelled
  | JobStateSynced
  | JobStateCancelling

datatype schema_state =
    StateNone
  | StateDeleteOnly
  | StateWriteOnly
  | StateWriteReorganization
  | StatePublic

text \<open>
  Errors. A \<open>terror\<close> is a classified error (\<open>*terror.Error\<close>); any other Go error is
  a \<open>PlainError\<close> carrying its message, and \<open>DeadlineExceeded\<close> is
  \<open>context.DeadlineExceeded\<close>.
\<close>

datatype terror =
    ErrEntryTooLarge
  | ErrCancelledDDLJob
  | ErrInvalidDDLJob
  | ErrInvalidJobVersion int int
  | ErrUnknownDDL string
  | ErrOtherCode nat

datatype error =
    TError terror
  | PlainError string
  | DeadlineExceeded

datatype arg = ArgInt int | ArgBool bool | ArgStr string

record history_info =
  SchemaVersion :: int
  DBInfo :: "string option"
  TableInfo :: "string option"
  FinishedTS :: int

record job =
  ID :: int
  Type :: action_type
  SchemaID :: int
  TableID :: int
  State :: job_state
  SchemaState :: schema_state
  Args :: "arg list option"
  RawArgs :: "string option"
  DependencyID :: int
  Error :: "terror option"
  ErrorCount :: "64 word"
  SnapshotVer :: int
  StartTS :: int
  Query :: string
  BinlogInfo :: history_info
  Version :: int

text \<open>Modelled from the spec: the state predicates of a job, named after the states.\<close>

definition IsDone :: "job \<Rightarrow> bool" where
  "IsDone j = (State j = JobStateDone)"

definition IsRollbackDone :: "job \<Rightarrow> bool" where
  "IsRollbackDone j = (State j = JobStateRollbackDone)"

definition IsRunning :: "job \<Rightarrow> bool" where
  "IsRunning j = (State j = JobStateRunning)"

definition IsRollingback :: "job \<Rightarrow> bool" where
  "IsRollingback j = (State j = JobStateRollingback)"

definition IsCancelled :: "job \<Rightarrow> bool" where
  "IsCancelled j = (State j = JobStateCancelled)"

definition IsCancelling :: "job \<Rightarrow> bool" where
  "IsCancelling j = (State j = JobStateCancelling)"

definition IsSynced :: "job \<Rightarrow> bool" where
  "IsSynced j = (State j = JobStateSynced)"

text \<open>
  Modelled from the spec: a job is finished once it is done, rolled back or cancelled
  (the states from which section 4.4 only finalizes).
\<close>

definition IsFinished :: "job \<Rightarrow> bool" where
  "IsFinished j =
     (State j = JobStateDone \<or> State j = JobStateRollbackDone \<or> State j = JobStateCancelled)"

text \<open>
  Modelled from the spec: clearing the auxiliary payload of a job (\<open>BinlogInfo.Clean\<close>)
  resets everything in it but the completion timestamp, which finalization stamps.
\<close>

definition Clean :: "history_info \<Rightarrow> history_info" where
  "Clean h = h\<lparr>SchemaVersion := 0, DBInfo := None, TableInfo := None\<rparr>"

definition toTError :: "error \<Rightarrow> terror" where
  "toTError err =
     (case err of
        TError t \<Rightarrow> t
      | PlainError s \<Rightarrow> ErrUnknownDDL s
      | DeadlineExceeded \<Rightarrow> ErrUnknownDDL ''context deadline exceeded'')"

subsection \<open>The collaborators of the worker\<close>

text \<open>
  Every call the worker makes on a collaborator outside the transactional store is
  recorded, in order, in the field \<open>calls\<close> of the state.
\<close>

datatype ctx = TimeoutCtx "64 word"

datatype call =
    CallAddDelRangeJob int
  | CallSetDDLBinlog int string
  | CallNotifyReorgCancel
  | CallHandler action_type int
  | CallOnJobRunBefore int
  | CallOnJobUpdated int
  | CallMustGetGlobalVersion
  | CallOwnerUpdateGlobalVersion int
  | CallOwnerCheckAllVersions int
  | CallCtxDone
  | CallSleep
  | CallNotifyJobDone

datatype job_list_key = DefaultJobListKey | AddIndexJobListKey

datatype meta_op =
    OpGetAllDDLJobs
  | OpGetDDLJob
  | OpEnQueueDDLJob
  | OpDeQueueDDLJob
  | OpUpdateDDLJob
  | OpAddHistoryDDLJob

text \<open>
  The state the worker acts on: the two job queues, the history archive (a hash keyed by
  job ID), the schema data \<open>schemaData\<close> that only the operation handlers read and write,
  the queue a \<open>meta.Meta\<close> handle is switched to, the start timestamp of the running
  transaction, and the recorded calls.
\<close>

record 's world =
  defaultJobs :: "job list"
  addIndexJobs :: "job list"
  historyJobs :: "int \<rightharpoonup> job"
  schemaData :: 's
  jobListKey :: job_list_key
  txnStartTS :: int
  calls :: "call list"

text \<open>
  What the worker is given: the lease, the protocol version of the process
  (\<open>currentVersion\<close>), and the functions of other files and packages that this file calls.
  The lease is a \<open>time.Duration\<close>, a 64-bit integer, and so is every wait time computed
  from it: twice the lease wraps around. \<open>fault\<close> makes an operation of the store fail
  with the given error.
\<close>

record ('s, 't, 'i) env =
  lease :: "64 word"
  currentVersion :: int
  marshalArgs :: "arg list option \<Rightarrow> string"
  fault :: "meta_op \<Rightarrow> error option"
  isDependentOn :: "job \<Rightarrow> job \<Rightarrow> error + bool"
  addDelRangeJob :: "job \<Rightarrow> error option"
  handler :: "action_type \<Rightarrow> 's \<Rightarrow> job \<Rightarrow> 's \<times> job \<times> int \<times> error option"
  getTableInfo :: "'s \<Rightarrow> job \<Rightarrow> int \<Rightarrow> error + 't"
  decodeIndexArgs :: "job \<Rightarrow> error + (job \<times> bool \<times> string)"
  findIndexByName :: "string \<Rightarrow> 't \<Rightarrow> 'i option"
  convert2RollbackJob ::
    "'s \<Rightarrow> job \<Rightarrow> 't \<Rightarrow> 'i option \<Rightarrow> error option \<Rightarrow> 's \<times> job \<times> int \<times> error option"
  mustGetGlobalVersion :: "ctx \<Rightarrow> error + int"
  ownerUpdateGlobalVersion :: "ctx \<Rightarrow> int \<Rightarrow> error option"
  ownerCheckAllVersions :: "ctx \<Rightarrow> int \<Rightarrow> error option"

definition record_call :: "call \<Rightarrow> 's world \<Rightarrow> 's world" where
  "record_call c w = w\<lparr>calls := calls w @ [c]\<rparr>"

subsection \<open>The job queues and the history archive\<close>

text \<open>
  Modelled from the spec: the operations of package \<open>meta\<close>, which is not part of the
  sources at hand. They are those of sections 4.1 and 4.7: enqueue at the tail, peek at an index,
  overwrite the head, dequeue the head, and add a copy keyed by ID to the history. The
  typed \<open>Args\<close> of a job live in memory only (decoding is lazy), so a stored job has none;
  enqueueing serializes them into \<open>RawArgs\<close>, and overwriting the head does so unless it
  is told to preserve the raw form. \<open>GetAllDDLJobs\<close> reads the list of the queue from its
  right end, where jobs are enqueued: it returns the newest job first and the head of the
  queue last.
\<close>

definition NewMeta :: "'s world \<Rightarrow> 's world" where
  "NewMeta w = w\<lparr>jobListKey := DefaultJobListKey\<rparr>"

definition SetJobListKey :: "job_list_key \<Rightarrow> 's world \<Rightarrow> 's world" where
  "SetJobListKey k w = w\<lparr>jobListKey := k\<rparr>"

definition queueJobs :: "'s world \<Rightarrow> job list" where
  "queueJobs w =
     (if jobListKey w = AddIndexJobListKey then addIndexJobs w else defaultJobs w)"

definition setQueueJobs :: "job list \<Rightarrow> 's world \<Rightarrow> 's world" where
  "setQueueJobs js w =
     (if jobListKey w = AddIndexJobListKey then w\<lparr>addIndexJobs := js\<rparr>
      else w\<lparr>defaultJobs := js\<rparr>)"


definition GetDDLJob :: "('s, 't, 'i) env \<Rightarrow> 's world \<Rightarrow> nat \<Rightarrow> error + job option" where
  "GetDDLJob env w i =
     (case fault env OpGetDDLJob of
        Some e \<Rightarrow> Inl e
      | None \<Rightarrow> Inr (if i < length (queueJobs w) then Some (queueJobs w ! i) else None))"

definition EnQueueDDLJob :: "('s, 't, 'i) env \<Rightarrow> 's world \<Rightarrow> job \<Rightarrow> error + 's world" where
  "EnQueueDDLJob env w j =
     (case fault env OpEnQueueDDLJob of
        Some e \<Rightarrow> Inl e
      | None \<Rightarrow>
          Inr (setQueueJobs
                 (queueJobs w @ [j\<lparr>RawArgs := Some (marshalArgs env (Args j)), Args := None\<rparr>]) w))"

definition DeQueueDDLJob ::
  "('s, 't, 'i) env \<Rightarrow> 's world \<Rightarrow> error + ('s world \<times> job option)" where
  "DeQueueDDLJob env w =
     (case fault env OpDeQueueDDLJob of
        Some e \<Rightarrow> Inl e
      | None \<Rightarrow>
          (case queueJobs w of
             [] \<Rightarrow> Inr (w, None)
           | j # js \<Rightarrow> Inr (setQueueJobs js w, Some j)))"

definition UpdateDDLJob ::
  "('s, 't, 'i) env \<Rightarrow> 's world \<Rightarrow> nat \<Rightarrow> job \<Rightarrow> bool \<Rightarrow> error + 's world" where
  "UpdateDDLJob env w i j updateRawArgs =
     (case fault env OpUpdateDDLJob of
        Some e \<Rightarrow> Inl e
      | None \<Rightarrow>
          if i < length (queueJobs w)
          then Inr (setQueueJobs
                      ((queueJobs w)
                         [i := j\<lparr>RawArgs := (if updateRawArgs
                                               then Some (marshalArgs env (Args j))
                                               else RawArgs j),
                                  Args := None\<rparr>]) w)
          else Inl (PlainError ''invalid list index''))"

definition AddHistoryDDLJob :: "('s, 't, 'i) env \<Rightarrow> 's world \<Rightarrow> job \<Rightarrow> error + 's world" where
  "AddHistoryDDLJob env w j =
     (case fault env OpAddHistoryDDLJob of
        Some e \<Rightarrow> Inl e
      | None \<Rightarrow> Inr (w\<lparr>historyJobs := (historyJobs w)(ID j \<mapsto> j\<lparr>Args := None\<rparr>)\<rparr>))"

subsection \<open>The functions of ddl\_worker.go\<close>

text \<open>\<open>getFirstDDLJob\<close>: the job at index 0 of the queue, or none.\<close>

definition getFirstDDLJob :: "('s, 't, 'i) env \<Rightarrow> 's world \<Rightarrow> error + job option" where
  "getFirstDDLJob env t = GetDDLJob env t 0"

text \<open>
  \<open>deleteRange\<close>: a job of a version this process knows is handed to the delete-range
  manager; a job of a later version is refused.
\<close>

definition deleteRange :: "('s, 't, 'i) env \<Rightarrow> 's world \<Rightarrow> job \<Rightarrow> 's world \<times> error option" where
  "deleteRange env w j =
     (if Version j \<le> currentVersion env
      then (record_call (CallAddDelRangeJob (ID j)) w, addDelRangeJob env j)
      else (w, Some (TError (ErrInvalidJobVersion (Version j) (currentVersion env)))))"

text \<open>
  The switch of \<open>finishDDLJob\<close> on the type of the job: the deferred clean-up, before
  anything is dequeued.
\<close>

definition finishCleanup :: "('s, 't, 'i) env \<Rightarrow> 's world \<Rightarrow> job \<Rightarrow> 's world \<times> error option" where
  "finishCleanup env w j =
     (case Type j of
        ActionAddIndex \<Rightarrow>
          (if State j \<noteq> JobStateRollbackDone then (w, None) else deleteRange env w j)
      | ActionDropSchema \<Rightarrow> deleteRange env w j
      | ActionDropTable \<Rightarrow> deleteRange env w j
      | ActionTruncateTable \<Rightarrow> deleteRange env w j
      | ActionDropIndex \<Rightarrow> deleteRange env w j
      | _ \<Rightarrow> (w, None))"

text \<open>
  \<open>finishDDLJob\<close>: the clean-up, then the dequeue, then the completion timestamp, then
  the history entry; the first error ends it. The result is the state, the job as it is
  in memory afterwards, and the error.
\<close>

definition finishDDLJob ::
  "('s, 't, 'i) env \<Rightarrow> 's world \<Rightarrow> job \<Rightarrow> 's world \<times> job \<times> error option" where
  "finishDDLJob env t j =
     (case finishCleanup env t j of
        (t1, Some e) \<Rightarrow> (t1, j, Some e)
      | (t1, None) \<Rightarrow>
          (case DeQueueDDLJob env t1 of
             Inl e \<Rightarrow> (t1, j, Some e)
           | Inr (t2, _) \<Rightarrow>
               (let j' = j\<lparr>BinlogInfo := (BinlogInfo j)\<lparr>FinishedTS := txnStartTS t2\<rparr>\<rparr>
                in case AddHistoryDDLJob env t2 j' of
                     Inl e \<Rightarrow> (t2, j', Some e)
                   | Inr t3 \<Rightarrow> (t3, j', None))))"

text \<open>The jobs whose finalization asks for a range deletion.\<close>

definition needsDeleteRange :: "job \<Rightarrow> bool" where
  "needsDeleteRange j =
     (Type j = ActionDropSchema \<or> Type j = ActionDropTable \<or> Type j = ActionTruncateTable
      \<or> Type j = ActionDropIndex
      \<or> (Type j = ActionAddIndex \<and> State j = JobStateRollbackDone))"

text \<open>
  \<open>handleUpdateJobError\<close>: a job too large to be written is cancelled and finalized; any
  other error of the update is passed on.
\<close>

definition handleUpdateJobError ::
  "('s, 't, 'i) env \<Rightarrow> 's world \<Rightarrow> job \<Rightarrow> error option \<Rightarrow> 's world \<times> job \<times> error option" where
  "handleUpdateJobError env t j err =
     (case err of
        None \<Rightarrow> (t, j, None)
      | Some e \<Rightarrow>
          if e = TError ErrEntryTooLarge
          then finishDDLJob env t
                 (j\<lparr>BinlogInfo := Clean (BinlogInfo j),
                    Error := Some (toTError e),
                    SchemaState := StateNone,
                    State := JobStateCancelled\<rparr>)
          else (t, j, Some e))"

text \<open>
  \<open>updateDDLJob\<close>: the raw arguments are left alone when the run met an error and the
  job has raw arguments that were never decoded.
\<close>

definition updateDDLJob ::
  "('s, 't, 'i) env \<Rightarrow> 's world \<Rightarrow> job \<Rightarrow> bool \<Rightarrow> error + 's world" where
  "updateDDLJob env t j meetErr =
     (let updateRawArgs = (if meetErr \<and> (RawArgs j \<noteq> None \<and> Args j = None) then False else True)
      in UpdateDDLJob env t 0 j updateRawArgs)"



text \<open>
  The dispatch switch of \<open>runDDLJob\<close>: one handler for each known type, and the default
  case, which cancels the job.
\<close>

definition callHandler ::
  "('s, 't, 'i) env \<Rightarrow> 's world \<Rightarrow> job \<Rightarrow> 's world \<times> job \<times> int \<times> error option" where
  "callHandler env t j =
     (case handler env (Type j) (schemaData t) j of
        (s', j', ver, err) \<Rightarrow>
          (record_call (CallHandler (Type j) (ID j)) (t\<lparr>schemaData := s'\<rparr>), j', ver, err))"

definition dispatch ::
  "('s, 't, 'i) env \<Rightarrow> 's world \<Rightarrow> job \<Rightarrow> 's world \<times> job \<times> int \<times> error option" where
  "dispatch env t j =
     (case Type j of
        ActionCreateSchema \<Rightarrow> callHandler env t j
      | ActionDropSchema \<Rightarrow> callHandler env t j
      | ActionCreateTable \<Rightarrow> callHandler env t j
      | ActionDropTable \<Rightarrow> callHandler env t j
      | ActionAddColumn \<Rightarrow> callHandler env t j
      | ActionDropColumn \<Rightarrow> callHandler env t j
      | ActionModifyColumn \<Rightarrow> callHandler env t j
      | ActionAddIndex \<Rightarrow> callHandler env t j
      | ActionDropIndex \<Rightarrow> callHandler env t j
      | ActionAddForeignKey \<Rightarrow> callHandler env t j
      | ActionDropForeignKey \<Rightarrow> callHandler env t j
      | ActionTruncateTable \<Rightarrow> callHandler env t j
      | ActionRebaseAutoID \<Rightarrow> callHandler env t j
      | ActionRenameTable \<Rightarrow> callHandler env t j
      | ActionSetDefaultValue \<Rightarrow> callHandler env t j
      | ActionShardRowID \<Rightarrow> callHandler env t j
      | ActionModifyTableComment \<Rightarrow> callHandler env t j
      | ActionRenameIndex \<Rightarrow> callHandler env t j
      | ActionNone \<Rightarrow> (t, j\<lparr>State := JobStateCancelled\<rparr>, 0, Some (TError ErrInvalidDDLJob)))"

text \<open>
  \<open>runDDLJob\<close>: the result is the state, the job as it is in memory afterwards, the schema
  version and the error.
\<close>

definition runDDLJob ::
  "('s, 't, 'i) env \<Rightarrow> 's world \<Rightarrow> job \<Rightarrow> 's world \<times> job \<times> int \<times> error option" where
  "runDDLJob env t j =
     (if IsFinished j then (t, j, 0, None)
      else if IsCancelling j
              \<and> \<not> (Type j = ActionAddIndex \<and> SchemaState j = StateWriteReorganization
                    \<and> SnapshotVer j \<noteq> 0)
      then (t, j\<lparr>State := JobStateCancelled,
                  Error := Some ErrCancelledDDLJob,
                  ErrorCount := ErrorCount j + 1\<rparr>, 0, None)
      else
        (let t1 = (if IsCancelling j then record_call CallNotifyReorgCancel t else t);
             j1 = (if \<not> IsRollingback j \<and> \<not> IsCancelling j
                   then j\<lparr>State := JobStateRunning\<rparr> else j)
         in case dispatch env t1 j1 of
              (t2, j2, ver, None) \<Rightarrow> (t2, j2, ver, None)
            | (t2, j2, ver, Some e) \<Rightarrow>
                (t2, j2\<lparr>Error := Some (toTError e), ErrorCount := ErrorCount j2 + 1\<rparr>,
                 ver, Some e)))"

text \<open>\<open>chooseLeaseTime\<close>\<close>

definition chooseLeaseTime :: "64 word \<Rightarrow> 64 word \<Rightarrow> 64 word" where
  "chooseLeaseTime t mx = (if t = 0 \<or> sint mx < sint t then mx else t)"

text \<open>
  \<open>waitSchemaChanged\<close>: nothing is asked of the schema syncer when the wait time or the
  version is 0. Otherwise the version is published and, unless that ran into the deadline,
  the versions of all servers are checked; an error of the check other than the deadline
  waits for the context to end.
\<close>

definition waitSchemaChanged ::
  "('s, 't, 'i) env \<Rightarrow> ctx option \<Rightarrow> 64 word \<Rightarrow> int \<Rightarrow> 's world \<Rightarrow> 's world" where
  "waitSchemaChanged env ctx waitTime latestSchemaVersion w =
     (if waitTime = 0 then w
      else if latestSchemaVersion = 0 then w
      else
        (let ctx' = (case ctx of None \<Rightarrow> TimeoutCtx waitTime | Some c \<Rightarrow> c);
             w1 = record_call (CallOwnerUpdateGlobalVersion latestSchemaVersion) w
         in if ownerUpdateGlobalVersion env ctx' latestSchemaVersion = Some DeadlineExceeded
            then w1
            else
              (let w2 = record_call (CallOwnerCheckAllVersions latestSchemaVersion) w1
               in case ownerCheckAllVersions env ctx' latestSchemaVersion of
                    None \<Rightarrow> w2
                  | Some e \<Rightarrow>
                      if e = DeadlineExceeded then w2 else record_call CallCtxDone w2)))"

text \<open>
  \<open>waitSchemaSynced\<close>: for a job in one of the four states, the global version is read
  again and waited for.
\<close>

definition waitSchemaSynced ::
  "('s, 't, 'i) env \<Rightarrow> job \<Rightarrow> 64 word \<Rightarrow> 's world \<Rightarrow> 's world" where
  "waitSchemaSynced env j waitTime w =
     (if \<not> IsRunning j \<and> \<not> IsRollingback j \<and> \<not> IsDone j \<and> \<not> IsRollbackDone j then w
      else
        (let ctx = TimeoutCtx waitTime;
             w1 = record_call CallMustGetGlobalVersion w
         in case mustGetGlobalVersion env ctx of
              Inl e \<Rightarrow> w1
            | Inr latestSchemaVersion \<Rightarrow>
                waitSchemaChanged env (Some ctx) waitTime latestSchemaVersion w1))"

text \<open>
  \<open>cleanAddIndexQueueJobs\<close>: one round of its loop either ends the function or goes
  round again.
\<close>

datatype 's clean_step = CleanStop "'s world" "error option" | CleanAgain "'s world"

definition cleanAddIndexQueueJobs_step ::
  "('s, 't, 'i) env \<Rightarrow> 's world \<Rightarrow> 's clean_step" where
  "cleanAddIndexQueueJobs_step env m =
     (case getFirstDDLJob env m of
        Inl e \<Rightarrow> CleanStop m (Some e)
      | Inr None \<Rightarrow> CleanStop m None
      | Inr (Some j) \<Rightarrow>
          if SchemaState j = StatePublic \<or> SchemaState j = StateNone
          then
            (let m1 = (if SchemaState j = StateNone then m
                       else record_call (CallSetDDLBinlog (ID j) (Query j)) m);
                 j1 = (if SchemaState j = StateNone then j\<lparr>State := JobStateCancelled\<rparr>
                       else j\<lparr>State := JobStateSynced\<rparr>)
             in case finishDDLJob env m1 j1 of
                  (m2, _, Some e) \<Rightarrow> CleanStop m2 (Some e)
                | (m2, _, None) \<Rightarrow> CleanAgain m2)
          else
            (case getTableInfo env (schemaData m) j (SchemaID j) of
               Inl e \<Rightarrow> CleanStop m (Some e)
             | Inr tblInfo \<Rightarrow>
                 (case decodeIndexArgs env j of
                    Inl e \<Rightarrow> CleanStop m (Some e)
                  | Inr (j1, unique, indexName) \<Rightarrow>
                      (case convert2RollbackJob env (schemaData m) j1 tblInfo
                              (findIndexByName env indexName tblInfo) None of
                         (s', j2, ver, Some e) \<Rightarrow> CleanStop (m\<lparr>schemaData := s'\<rparr>) (Some e)
                       | (s', j2, ver, None) \<Rightarrow>
                           (case DeQueueDDLJob env (m\<lparr>schemaData := s'\<rparr>) of
                              Inl e \<Rightarrow> CleanStop (m\<lparr>schemaData := s'\<rparr>) (Some e)
                            | Inr (m2, _) \<Rightarrow>
                                (case EnQueueDDLJob env (SetJobListKey DefaultJobListKey m2) j2 of
                                   Inl e \<Rightarrow>
                                     CleanStop (SetJobListKey AddIndexJobListKey m2) (Some e)
                                 | Inr m3 \<Rightarrow>
                                     CleanAgain (SetJobListKey AddIndexJobListKey m3)))))))"

definition cleanMeasure :: "'s world \<Rightarrow> nat" where
  "cleanMeasure m =
     (if jobListKey m = AddIndexJobListKey then length (addIndexJobs m)
      else length (defaultJobs m) + length (addIndexJobs m) + 1)"

function cleanAddIndexQueueJobs_loop ::
  "('s, 't, 'i) env \<Rightarrow> 's world \<Rightarrow> 's world \<times> error option" where
  "cleanAddIndexQueueJobs_loop env m =
     (case cleanAddIndexQueueJobs_step env m of
        CleanStop m' err \<Rightarrow> (m', err)
      | CleanAgain m' \<Rightarrow> cleanAddIndexQueueJobs_loop env m')"
  by pat_completeness auto
termination
proof (relation "measure (\<lambda>(env, m). cleanMeasure m)")
  show "wf (measure (\<lambda>(env :: ('s, 't, 'i) env, m :: 's world). cleanMeasure m))"
    by simp
next
  fix env :: "('s, 't, 'i) env" and m m' :: "'s world"
  assume step: "cleanAddIndexQueueJobs_step env m = CleanAgain m'"
  have cleanup: "\<And>w j w1 e. finishCleanup env w j = (w1, e) \<Longrightarrow>
      defaultJobs w1 = defaultJobs w \<and> addIndexJobs w1 = addIndexJobs w
      \<and> jobListKey w1 = jobListKey w"
  proof -
    fix w :: "'s world" and j w1 e
    assume a: "finishCleanup env w j = (w1, e)"
    have "w1 = w \<or> w1 = record_call (CallAddDelRangeJob (ID j)) w"
      using a by (cases "Type j") (auto simp: finishCleanup_def deleteRange_def split: if_splits)
    then show "defaultJobs w1 = defaultJobs w \<and> addIndexJobs w1 = addIndexJobs w
      \<and> jobListKey w1 = jobListKey w"
      by (auto simp: record_call_def)
  qed
  have deq: "\<And>w w2 r. DeQueueDDLJob env w = Inr (w2, r) \<Longrightarrow> queueJobs w \<noteq> [] \<Longrightarrow>
      jobListKey w2 = jobListKey w \<and> cleanMeasure w2 < cleanMeasure w
      \<and> length (defaultJobs w2) + length (addIndexJobs w2) < length (defaultJobs w) + length (addIndexJobs w)"
    by (auto simp: DeQueueDDLJob_def queueJobs_def setQueueJobs_def cleanMeasure_def
        split: option.splits list.splits if_splits)
  have fin: "\<And>w j w2 j'. finishDDLJob env w j = (w2, j', None) \<Longrightarrow> queueJobs w \<noteq> [] \<Longrightarrow>
      cleanMeasure w2 < cleanMeasure w"
  proof -
    fix w :: "'s world" and j w2 j'
    assume a: "finishDDLJob env w j = (w2, j', None)" and ne: "queueJobs w \<noteq> []"
    obtain w1 e where c: "finishCleanup env w j = (w1, e)" by (cases "finishCleanup env w j")
    from cleanup[OF c] ne have ne1: "queueJobs w1 \<noteq> []" and m1: "cleanMeasure w1 = cleanMeasure w"
      by (auto simp: queueJobs_def cleanMeasure_def split: if_splits)
    from a c obtain w3 r where d: "DeQueueDDLJob env w1 = Inr (w3, r)"
      and h: "AddHistoryDDLJob env w3 (j\<lparr>BinlogInfo := (BinlogInfo j)\<lparr>FinishedTS := txnStartTS w3\<rparr>\<rparr>) = Inr w2"
      by (auto simp: finishDDLJob_def Let_def split: option.splits sum.splits prod.splits)
    from h have "cleanMeasure w2 = cleanMeasure w3"
      by (auto simp: AddHistoryDDLJob_def cleanMeasure_def split: option.splits)
    with deq[OF d ne1] m1 show "cleanMeasure w2 < cleanMeasure w" by simp
  qed
  obtain j where first: "getFirstDDLJob env m = Inr (Some j)"
    using step by (auto simp: cleanAddIndexQueueJobs_step_def split: sum.splits option.splits)
  then have ne: "queueJobs m \<noteq> []"
    by (auto simp: getFirstDDLJob_def GetDDLJob_def split: option.splits if_splits)
  have "cleanMeasure m' < cleanMeasure m"
  proof (cases "SchemaState j = StatePublic \<or> SchemaState j = StateNone")
    case True
    then obtain m1 j1 j' where f: "finishDDLJob env m1 j1 = (m', j', None)"
      and m1: "m1 = m \<or> m1 = record_call (CallSetDDLBinlog (ID j) (Query j)) m"
      using step first
      by (auto simp: cleanAddIndexQueueJobs_step_def Let_def split: prod.splits option.splits if_splits)
    from m1 ne have "queueJobs m1 \<noteq> []" "cleanMeasure m1 = cleanMeasure m"
      by (auto simp: record_call_def queueJobs_def cleanMeasure_def)
    with fin[OF f] show ?thesis by simp
  next
    case False
    then obtain s' m2 r m3 j2 where d: "DeQueueDDLJob env (m\<lparr>schemaData := s'\<rparr>) = Inr (m2, r)"
      and e: "EnQueueDDLJob env (SetJobListKey DefaultJobListKey m2) j2 = Inr m3"
      and m': "m' = SetJobListKey AddIndexJobListKey m3"
      using step first
      by (auto simp: cleanAddIndexQueueJobs_step_def split: prod.splits option.splits sum.splits)
    from ne have "queueJobs (m\<lparr>schemaData := s'\<rparr>) \<noteq> []" by (auto simp: queueJobs_def split: if_splits)
    from deq[OF d this] have k: "jobListKey m2 = jobListKey m"
      and l: "length (defaultJobs m2) + length (addIndexJobs m2) < length (defaultJobs m) + length (addIndexJobs m)"
      and c: "cleanMeasure m2 < cleanMeasure (m\<lparr>schemaData := s'\<rparr>)"
      by simp_all
    from e have "addIndexJobs m3 = addIndexJobs m2" "length (defaultJobs m3) = Suc (length (defaultJobs m2))"
      by (auto simp: EnQueueDDLJob_def SetJobListKey_def queueJobs_def setQueueJobs_def split: option.splits if_splits)
    with d m' k l c ne show ?thesis
      by (auto simp: cleanMeasure_def SetJobListKey_def DeQueueDDLJob_def queueJobs_def setQueueJobs_def
          split: if_splits option.splits list.splits)
  qed
  then show "((env, m'), (env, m)) \<in> measure (\<lambda>(env, m). cleanMeasure m)"
    by simp
qed

definition cleanAddIndexQueueJobs ::
  "('s, 't, 'i) env \<Rightarrow> 's world \<Rightarrow> 's world \<times> error option" where
  "cleanAddIndexQueueJobs env txn =
     cleanAddIndexQueueJobs_loop env (SetJobListKey AddIndexJobListKey (NewMeta txn))"

subsection \<open>The drain pass\<close>

text \<open>
  What one round of the loop of \<open>handleDDLJobQueue\<close> observes from outside: whether the
  worker is closed, whether this process is the owner, the start timestamp of the new
  transaction, and whether its commit fails.
\<close>

record iter_in =
  closed :: bool
  owner :: bool
  startTS :: int
  commitErr :: "error option"

text \<open>The variables of \<open>handleDDLJobQueue\<close> that its transaction closure assigns.\<close>

record txn_out =
  out_job :: "job option"
  out_schemaVer :: int
  out_runJobErr :: "error option"
  out_once :: bool

text \<open>
  Modelled from the spec: \<open>kv.RunInNewTxn\<close> (not retried) runs the closure in a new
  transaction; when the closure or the commit fails, what the closure wrote to the store
  is undone. The calls on collaborators and the variables assigned stay.
\<close>

definition rollback :: "'s world \<Rightarrow> 's world \<Rightarrow> 's world" where
  "rollback w w1 =
     w1\<lparr>defaultJobs := defaultJobs w, addIndexJobs := addIndexJobs w,
        historyJobs := historyJobs w, schemaData := schemaData w\<rparr>"

definition RunInNewTxn ::
  "iter_in \<Rightarrow> ('s world \<Rightarrow> 's world \<times> 'a \<times> error option) \<Rightarrow> 's world
     \<Rightarrow> 's world \<times> 'a \<times> error option" where
  "RunInNewTxn inp f w =
     (case f (w\<lparr>txnStartTS := startTS inp\<rparr>) of
        (w1, r, Some e) \<Rightarrow> (rollback w w1, r, Some e)
      | (w1, r, None) \<Rightarrow>
          (case commitErr inp of
             Some e \<Rightarrow> (rollback w w1, r, Some e)
           | None \<Rightarrow> (w1, r, None)))"

text \<open>The closure that \<open>handleDDLJobQueue\<close> runs in a transaction.\<close>

definition txnBody ::
  "('s, 't, 'i) env \<Rightarrow> bool \<Rightarrow> bool \<Rightarrow> bool \<Rightarrow> 64 word \<Rightarrow> 's world
     \<Rightarrow> 's world \<times> txn_out \<times> error option" where
  "txnBody env shouldCleanJobs once isOwner waitTime txn =
     (let none = \<lparr>out_job = None, out_schemaVer = 0, out_runJobErr = None, out_once = once\<rparr>
      in if \<not> isOwner then (txn, none, None)
         else if shouldCleanJobs
         then (case cleanAddIndexQueueJobs env txn of (txn1, err) \<Rightarrow> (txn1, none, err))
         else
           (let t = NewMeta txn
            in case getFirstDDLJob env t of
                 Inl e \<Rightarrow> (t, none, Some e)
               | Inr None \<Rightarrow> (t, none, None)
               | Inr (Some j) \<Rightarrow>
                   if once
                   then (waitSchemaSynced env j waitTime t,
                         none\<lparr>out_job := Some j, out_once := False\<rparr>, None)
                   else if IsDone j \<or> IsRollbackDone j
                   then
                     (let t1 = record_call (CallSetDDLBinlog (ID j) (Query j)) t;
                          j1 = (if \<not> IsRollbackDone j then j\<lparr>State := JobStateSynced\<rparr> else j)
                      in case finishDDLJob env t1 j1 of
                           (t2, j2, err) \<Rightarrow> (t2, none\<lparr>out_job := Some j2\<rparr>, err))
                   else
                     (case runDDLJob env (record_call (CallOnJobRunBefore (ID j)) t) j of
                        (t2, j2, schemaVer, runJobErr) \<Rightarrow>
                          if IsCancelled j2
                          then (case finishDDLJob env t2 j2 of
                                  (t3, j3, err) \<Rightarrow>
                                    (t3, \<lparr>out_job = Some j3, out_schemaVer = schemaVer,
                                          out_runJobErr = runJobErr, out_once = once\<rparr>, err))
                          else
                            (case (case updateDDLJob env t2 j2 (runJobErr \<noteq> None) of
                                     Inl e \<Rightarrow> handleUpdateJobError env t2 j2 (Some e)
                                   | Inr t3 \<Rightarrow> handleUpdateJobError env t3 j2 None) of
                               (t4, j4, err) \<Rightarrow>
                                 (t4, \<lparr>out_job = Some j4, out_schemaVer = schemaVer,
                                       out_runJobErr = runJobErr, out_once = once\<rparr>, err)))))"

text \<open>
  One round of the loop of \<open>handleDDLJobQueue\<close>: it returns from the function, or goes
  on to the next round with the new value of \<open>once\<close>.
\<close>

datatype 's pass_step = Return "'s world" "error option" | Continue bool "'s world"

definition handleDDLJobQueue_step ::
  "('s, 't, 'i) env \<Rightarrow> bool \<Rightarrow> bool \<Rightarrow> iter_in \<Rightarrow> 's world \<Rightarrow> 's pass_step" where
  "handleDDLJobQueue_step env shouldCleanJobs once inp w =
     (if closed inp then Return w None
      else
        (let waitTime = 2 * lease env
         in case RunInNewTxn inp (txnBody env shouldCleanJobs once (owner inp) waitTime) w of
              (w1, out, err) \<Rightarrow>
                (let w2 = (if out_runJobErr out \<noteq> None then record_call CallSleep w1 else w1)
                 in if err \<noteq> None then Return w2 err
                    else (case out_job out of
                            None \<Rightarrow> Return w2 None
                          | Some j \<Rightarrow>
                              (let w3 = record_call (CallOnJobUpdated (ID j)) w2;
                                   w4 = (if IsRunning j \<or> IsRollingback j \<or> IsDone j
                                            \<or> IsRollbackDone j
                                         then waitSchemaChanged env None waitTime
                                                (out_schemaVer out) w3
                                         else w3);
                                   w5 = (if IsSynced j then record_call CallNotifyJobDone w4
                                         else w4)
                               in Continue (out_once out) w5)))))"

text \<open>
  The loop of \<open>handleDDLJobQueue\<close> may go round for ever (a handler that keeps failing is
  retried for as long as the process is the owner and is not closed), so it runs on the
  list of what its rounds observe, and has no result when that list ends before it
  returns.
\<close>

fun handleDDLJobQueue_loop ::
  "('s, 't, 'i) env \<Rightarrow> bool \<Rightarrow> bool \<Rightarrow> iter_in list \<Rightarrow> 's world
     \<Rightarrow> ('s world \<times> error option) option" where
  "handleDDLJobQueue_loop env shouldCleanJobs once [] w = None"
| "handleDDLJobQueue_loop env shouldCleanJobs once (inp # ins) w =
     (case handleDDLJobQueue_step env shouldCleanJobs once inp w of
        Return w' err \<Rightarrow> Some (w', err)
      | Continue once' w' \<Rightarrow> handleDDLJobQueue_loop env shouldCleanJobs once' ins w')"

definition handleDDLJobQueue ::
  "('s, 't, 'i) env \<Rightarrow> bool \<Rightarrow> iter_in list \<Rightarrow> 's world \<Rightarrow> ('s world \<times> error option) option" where
  "handleDDLJobQueue env shouldCleanJobs ins w =
     handleDDLJobQueue_loop env shouldCleanJobs True ins w"

subsection \<open>The worker loop\<close>

text \<open>
  \<open>onDDLWorker\<close>: each wake-up by the ticker or by the job channel runs one drain pass,
  the quit channel ends the worker. The worker is \<open>Stopped\<close> after a quit, \<open>Waiting\<close> in
  its \<open>select\<close> when the wake-ups given are used up, and \<open>Busy\<close> when a drain pass did not
  return. Each carries the value of \<open>shouldCleanJobs\<close>.
\<close>

datatype wake = WakeTicker "iter_in list" | WakeJobCh "iter_in list" | WakeQuit

datatype 's worker = Stopped bool "'s world" | Waiting bool "'s world" | Busy

definition afterPass :: "bool \<Rightarrow> error option \<Rightarrow> bool" where
  "afterPass shouldCleanJobs err =
     (if err \<noteq> None then shouldCleanJobs
      else if shouldCleanJobs then False
      else shouldCleanJobs)"

fun onDDLWorker_loop ::
  "('s, 't, 'i) env \<Rightarrow> bool \<Rightarrow> wake list \<Rightarrow> 's world \<Rightarrow> 's worker" where
  "onDDLWorker_loop env shouldCleanJobs [] w = Waiting shouldCleanJobs w"
| "onDDLWorker_loop env shouldCleanJobs (WakeQuit # wakes) w = Stopped shouldCleanJobs w"
| "onDDLWorker_loop env shouldCleanJobs (WakeTicker ins # wakes) w =
     (case handleDDLJobQueue env shouldCleanJobs ins w of
        None \<Rightarrow> Busy
      | Some (w', err) \<Rightarrow> onDDLWorker_loop env (afterPass shouldCleanJobs err) wakes w')"
| "onDDLWorker_loop env shouldCleanJobs (WakeJobCh ins # wakes) w =
     (case handleDDLJobQueue env shouldCleanJobs ins w of
        None \<Rightarrow> Busy
      | Some (w', err) \<Rightarrow> onDDLWorker_loop env (afterPass shouldCleanJobs err) wakes w')"

definition onDDLWorker :: "('s, 't, 'i) env \<Rightarrow> wake list \<Rightarrow> 's world \<Rightarrow> 's worker" where
  "onDDLWorker env wakes w = onDDLWorker_loop env True wakes w"

subsection \<open>What the drain of the legacy queue is to achieve\<close>

text \<open>
  Section 4.8 of the specification, as functions on the list of the jobs of the legacy
  queue, oldest first. \<open>archiveLegacy\<close> is the history after the drain: every job whose
  schema state is public or none is archived under its ID, cancelled when its schema state
  is none and synced otherwise, with the completion timestamp \<open>ts\<close>. \<open>requeueLegacy\<close> is
  the list of jobs put on the current queue: every other job, converted into a rollback
  job by \<open>convert2RollbackJob\<close> and serialized, the schema data being handed from one
  conversion to the next.
\<close>

fun archiveLegacy :: "int \<Rightarrow> (int \<rightharpoonup> job) \<Rightarrow> job list \<Rightarrow> (int \<rightharpoonup> job)" where
  "archiveLegacy ts h [] = h"
| "archiveLegacy ts h (j # js) =
     (if SchemaState j = StatePublic \<or> SchemaState j = StateNone
      then archiveLegacy ts
             (h(ID j \<mapsto> j\<lparr>State := (if SchemaState j = StateNone then JobStateCancelled
                                       else JobStateSynced),
                            BinlogInfo := (BinlogInfo j)\<lparr>FinishedTS := ts\<rparr>,
                            Args := None\<rparr>)) js
      else archiveLegacy ts h js)"

fun requeueLegacy :: "('s, 't, 'i) env \<Rightarrow> 's \<Rightarrow> job list \<Rightarrow> job list" where
  "requeueLegacy env s [] = []"
| "requeueLegacy env s (j # js) =
     (if SchemaState j = StatePublic \<or> SchemaState j = StateNone
      then requeueLegacy env s js
      else (case getTableInfo env s j (SchemaID j) of
              Inl e \<Rightarrow> []
            | Inr tblInfo \<Rightarrow>
                (case decodeIndexArgs env j of
                   Inl e \<Rightarrow> []
                 | Inr (j1, unique, indexName) \<Rightarrow>
                     (case convert2RollbackJob env s j1 tblInfo
                             (findIndexByName env indexName tblInfo) None of
                        (s', j2, ver, err) \<Rightarrow>
                          j2\<lparr>RawArgs := Some (marshalArgs env (Args j2)), Args := None\<rparr>
                            # requeueLegacy env s' js))))"

subsection \<open>What the dependency of a new job is to be\<close>


subsection \<open>Reading the recorded calls\<close>

text \<open>
  \<open>newCalls w w'\<close> is what was recorded between the states \<open>w\<close> and \<open>w'\<close>, and
  \<open>addsOnly ok w w'\<close> says that \<open>w'\<close> has the calls of \<open>w\<close> followed by calls that all
  satisfy \<open>ok\<close>. A handler call is the dispatch of an operation handler.
\<close>

definition newCalls :: "'s world \<Rightarrow> 's world \<Rightarrow> call list" where
  "newCalls w w' = drop (length (calls w)) (calls w')"

definition addsOnly :: "(call \<Rightarrow> bool) \<Rightarrow> 's world \<Rightarrow> 's world \<Rightarrow> bool" where
  "addsOnly ok w w' =
     (take (length (calls w)) (calls w') = calls w \<and> list_all ok (newCalls w w'))"

fun isHandlerCall :: "call \<Rightarrow> bool" where
  "isHandlerCall (CallHandler ty i) = True"
| "isHandlerCall c = False"

abbreviation (input) notResync :: "call \<Rightarrow> bool" where
  "notResync \<equiv> (\<lambda>c. c \<noteq> CallMustGetGlobalVersion)"

subsection \<open>A small installation to run the functions on\<close>

text \<open>
  A job with every field at its zero value, a store with nothing in it, and collaborators
  that succeed: the handler of every type finishes its job in one step and produces a new
  schema version, two jobs depend on each other when they act on the same table.
\<close>

definition job0 :: job where
  "job0 =
     \<lparr>ID = 0, Type = ActionNone, SchemaID = 0, TableID = 0, State = JobStateNone,
      SchemaState = StateNone, Args = None, RawArgs = None, DependencyID = 0, Error = None,
      ErrorCount = 0, SnapshotVer = 0, StartTS = 0, Query = [],
      BinlogInfo = \<lparr>SchemaVersion = 0, DBInfo = None, TableInfo = None, FinishedTS = 0\<rparr>,
      Version = 1\<rparr>"

definition world0 :: "nat world" where
  "world0 =
     \<lparr>defaultJobs = [], addIndexJobs = [], historyJobs = Map.empty, schemaData = 0,
      jobListKey = DefaultJobListKey, txnStartTS = 0, calls = []\<rparr>"

definition env0 :: "(nat, unit, unit) env" where
  "env0 =
     \<lparr>lease = 1, currentVersion = 1,
      marshalArgs = (\<lambda>a. case a of None \<Rightarrow> ''null'' | Some xs \<Rightarrow> ''[..]''),
      fault = (\<lambda>op. None),
      isDependentOn = (\<lambda>a b. Inr (TableID a = TableID b)),
      addDelRangeJob = (\<lambda>j. None),
      handler = (\<lambda>ty s j. (Suc s, j\<lparr>State := JobStateDone, SchemaState := StatePublic\<rparr>,
                            int (Suc s), None)),
      getTableInfo = (\<lambda>s j i. Inr ()),
      decodeIndexArgs = (\<lambda>j. Inr (j\<lparr>Args := Some [ArgBool False, ArgStr ''idx'']\<rparr>,
                                  False, ''idx'')),
      findIndexByName = (\<lambda>n t. Some ()),
      convert2RollbackJob =
        (\<lambda>s j t i e. (Suc s, j\<lparr>State := JobStateRollingback, SchemaState := StateDeleteOnly\<rparr>,
                       int (Suc s), e)),
      mustGetGlobalVersion = (\<lambda>c. Inr 1),
      ownerUpdateGlobalVersion = (\<lambda>c v. None),
      ownerCheckAllVersions = (\<lambda>c v. None)\<rparr>"

text \<open>A round of a drain pass in which the process is the owner and nothing fails.\<close>

definition asOwner :: iter_in where
  "asOwner = \<lparr>closed = False, owner = True, startTS = 100, commitErr = None\<rparr>"

definition notOwner :: iter_in where
  "notOwner = \<lparr>closed = False, owner = False, startTS = 100, commitErr = None\<rparr>"

text \<open>Jobs and faults for the examples below.\<close>

definition dropTableJob :: job where
  "dropTableJob = job0\<lparr>ID := 7, Type := ActionDropTable, State := JobStateSynced\<rparr>"

definition deqFails :: "meta_op \<Rightarrow> error option" where
  "deqFails op = (if op = OpDeQueueDDLJob then Some (PlainError ''store unreachable'') else None)"

definition undecodedJob :: job where
  "undecodedJob = job0\<lparr>ID := 3, Type := ActionAddColumn, State := JobStateRunning,
     RawArgs := Some ''[1]''\<rparr>"

definition cancellingJob :: job where
  "cancellingJob = job0\<lparr>ID := 4, Type := ActionAddColumn, State := JobStateCancelling,
     SchemaState := StateWriteOnly, SnapshotVer := 5\<rparr>"

definition reorgJob :: job where
  "reorgJob = job0\<lparr>ID := 4, Type := ActionAddIndex, State := JobStateCancelling,
     SchemaState := StateWriteReorganization, SnapshotVer := 5\<rparr>"

definition addColumnJob :: job where
  "addColumnJob = job0\<lparr>ID := 5, Type := ActionAddColumn, TableID := 1\<rparr>"



definition largeJob :: job where
  "largeJob = job0\<lparr>ID := 9, Type := ActionAddColumn, State := JobStateRunning,
     SchemaState := StateWriteOnly,
     BinlogInfo := \<lparr>SchemaVersion = 12, DBInfo = None, TableInfo = Some ''t'',
                    FinishedTS = 0\<rparr>\<rparr>"

definition legacyNoneJob :: job where
  "legacyNoneJob = job0\<lparr>ID := 1, Type := ActionAddIndex, TableID := 2\<rparr>"

definition legacyWriteOnlyJob :: job where
  "legacyWriteOnlyJob = job0\<lparr>ID := 2, Type := ActionAddIndex, TableID := 2,
     State := JobStateRunning, SchemaState := StateWriteOnly, RawArgs := Some ''[..]''\<rparr>"

definition legacyPublicJob :: job where
  "legacyPublicJob = job0\<lparr>ID := 3, Type := ActionAddIndex, TableID := 2,
     State := JobStateDone, SchemaState := StatePublic\<rparr>"

definition runningJob :: job where
  "runningJob = job0\<lparr>ID := 5, Type := ActionAddColumn, TableID := 1,
     State := JobStateRunning, SchemaState := StateWriteOnly\<rparr>"

section \<open>Unfolding the functions on concrete inputs\<close>

lemmas run_defs =
  handleDDLJobQueue_def handleDDLJobQueue_step_def RunInNewTxn_def rollback_def txnBody_def
  NewMeta_def SetJobListKey_def getFirstDDLJob_def GetDDLJob_def queueJobs_def setQueueJobs_def
  runDDLJob_def dispatch_def callHandler_def updateDDLJob_def UpdateDDLJob_def
  handleUpdateJobError_def finishDDLJob_def finishCleanup_def deleteRange_def
  DeQueueDDLJob_def EnQueueDDLJob_def AddHistoryDDLJob_def
  waitSchemaChanged_def waitSchemaSynced_def record_call_def Let_def
  IsDone_def IsRollbackDone_def IsRunning_def IsRollingback_def IsCancelled_def
  IsCancelling_def IsSynced_def IsFinished_def
  cleanAddIndexQueueJobs_def cleanAddIndexQueueJobs_step_def
  onDDLWorker_def afterPass_def

lemmas example_defs =
  env0_def world0_def job0_def asOwner_def notOwner_def addColumnJob_def runningJob_def
  legacyNoneJob_def legacyWriteOnlyJob_def legacyPublicJob_def

section \<open>Finalization\<close>

lemma finishCleanup_needs:
  "needsDeleteRange j \<Longrightarrow> finishCleanup env w j = deleteRange env w j"
  by (auto simp: needsDeleteRange_def finishCleanup_def)

lemma finishCleanup_other:
  "\<not> needsDeleteRange j \<Longrightarrow> finishCleanup env w j = (w, None)"
  by (cases "Type j") (auto simp: needsDeleteRange_def finishCleanup_def)

lemma deleteRange_calls:
  "deleteRange env t j = (t1, e) \<Longrightarrow>
     t1 = (if Version j \<le> currentVersion env then record_call (CallAddDelRangeJob (ID j)) t else t)
     \<and> e = (if Version j \<le> currentVersion env then addDelRangeJob env j
            else Some (TError (ErrInvalidJobVersion (Version j) (currentVersion env))))"
  by (auto simp: deleteRange_def split: if_splits)

lemma finishCleanup_eq:
  "finishCleanup env t j =
     (if needsDeleteRange j then deleteRange env t j else (t, None))"
  by (simp add: finishCleanup_needs finishCleanup_other)

lemma queueJobs_record_call [simp]: "queueJobs (record_call c t) = queueJobs t"
  by (simp add: queueJobs_def record_call_def)

lemma fields_record_call [simp]:
  "defaultJobs (record_call c t) = defaultJobs t"
  "addIndexJobs (record_call c t) = addIndexJobs t"
  "historyJobs (record_call c t) = historyJobs t"
  "schemaData (record_call c t) = schemaData t"
  "jobListKey (record_call c t) = jobListKey t"
  "txnStartTS (record_call c t) = txnStartTS t"
  "calls (record_call c t) = calls t @ [c]"
  by (simp_all add: record_call_def)

lemma fields_setQueueJobs [simp]:
  "historyJobs (setQueueJobs js t) = historyJobs t"
  "schemaData (setQueueJobs js t) = schemaData t"
  "jobListKey (setQueueJobs js t) = jobListKey t"
  "txnStartTS (setQueueJobs js t) = txnStartTS t"
  "calls (setQueueJobs js t) = calls t"
  "queueJobs (setQueueJobs js t) = js"
  by (simp_all add: setQueueJobs_def queueJobs_def)

lemma DeQueueDDLJob_Inr:
  "DeQueueDDLJob env t = Inr (t2, r) \<Longrightarrow>
     fault env OpDeQueueDDLJob = None \<and> t2 = (if queueJobs t = [] then t else setQueueJobs (drop 1 (queueJobs t)) t)"
  by (auto simp: DeQueueDDLJob_def split: option.splits list.splits)

lemma DeQueueDDLJob_Inl:
  "DeQueueDDLJob env t = Inl e \<Longrightarrow> fault env OpDeQueueDDLJob = Some e"
  by (auto simp: DeQueueDDLJob_def split: option.splits list.splits)

lemma DeQueueDDLJob_fields:
  assumes "DeQueueDDLJob env t = Inr (t2, r)"
  shows "queueJobs t2 = drop 1 (queueJobs t)" "historyJobs t2 = historyJobs t"
    "calls t2 = calls t" "txnStartTS t2 = txnStartTS t" "jobListKey t2 = jobListKey t"
    "schemaData t2 = schemaData t"
  using DeQueueDDLJob_Inr[OF assms] by (auto split: if_splits)

lemma AddHistoryDDLJob_Inr:
  "AddHistoryDDLJob env t j = Inr t3 \<Longrightarrow>
     t3 = t\<lparr>historyJobs := (historyJobs t)(ID j \<mapsto> j\<lparr>Args := None\<rparr>)\<rparr>"
  by (auto simp: AddHistoryDDLJob_def split: option.splits)

lemma AddHistoryDDLJob_fields:
  assumes "AddHistoryDDLJob env t j = Inr t3"
  shows "queueJobs t3 = queueJobs t" "historyJobs t3 = (historyJobs t)(ID j \<mapsto> j\<lparr>Args := None\<rparr>)"
    "calls t3 = calls t" "jobListKey t3 = jobListKey t" "schemaData t3 = schemaData t"
    "defaultJobs t3 = defaultJobs t" "addIndexJobs t3 = addIndexJobs t"
  using AddHistoryDDLJob_Inr[OF assms] by (simp_all add: queueJobs_def)

lemma finishDDLJob_effect:
  assumes "finishDDLJob env t j = (t', j', err)"
  shows "calls t' = calls t @ (if needsDeleteRange j \<and> Version j \<le> currentVersion env
                              then [CallAddDelRangeJob (ID j)] else [])
    \<and> (needsDeleteRange j \<and> (currentVersion env < Version j \<or> addDelRangeJob env j \<noteq> None)
         \<longrightarrow> err \<noteq> None \<and> queueJobs t' = queueJobs t)
    \<and> (err \<noteq> None \<longrightarrow> historyJobs t' = historyJobs t)
    \<and> (err = None \<longrightarrow>
          queueJobs t' = drop 1 (queueJobs t)
          \<and> j' = j\<lparr>BinlogInfo := (BinlogInfo j)\<lparr>FinishedTS := txnStartTS t\<rparr>\<rparr>
          \<and> historyJobs t' = (historyJobs t)(ID j \<mapsto> j'\<lparr>Args := None\<rparr>))"
proof -
  obtain t1 e1 where c: "finishCleanup env t j = (t1, e1)"
    by (cases "finishCleanup env t j")
  have t1: "t1 = (if needsDeleteRange j \<and> Version j \<le> currentVersion env
                  then record_call (CallAddDelRangeJob (ID j)) t else t)"
    and e1: "e1 = (if needsDeleteRange j
                   then (if Version j \<le> currentVersion env then addDelRangeJob env j
                         else Some (TError (ErrInvalidJobVersion (Version j) (currentVersion env))))
                   else None)"
    using c by (auto simp: finishCleanup_eq dest: deleteRange_calls split: if_splits)
  show ?thesis
  proof (cases e1)
    case (Some e)
    with assms c have "t' = t1" "err = Some e"
      by (simp_all add: finishDDLJob_def)
    with t1 e1 Some show ?thesis by (auto split: if_splits)
  next
    case None
    note e1None = this
    show ?thesis
    proof (cases "DeQueueDDLJob env t1")
      case (Inl e)
      with assms c e1None have "t' = t1" "err = Some e"
        by (simp_all add: finishDDLJob_def)
      with t1 e1 e1None show ?thesis by (auto split: if_splits)
    next
      case (Inr p)
      then obtain t2 r where d: "DeQueueDDLJob env t1 = Inr (t2, r)" by (cases p) auto
      note f2 = DeQueueDDLJob_fields[OF d]
      let ?j = "j\<lparr>BinlogInfo := (BinlogInfo j)\<lparr>FinishedTS := txnStartTS t2\<rparr>\<rparr>"
      show ?thesis
      proof (cases "AddHistoryDDLJob env t2 ?j")
        case (Inl e)
        with assms c e1None d have "t' = t2" "err = Some e"
          by (simp_all add: finishDDLJob_def Let_def)
        with t1 e1 e1None f2 show ?thesis by (auto split: if_splits)
      next
        case (Inr t3)
        with assms c e1None d have r: "t' = t3" "err = None" "j' = ?j"
          by (simp_all add: finishDDLJob_def Let_def)
        note f3 = AddHistoryDDLJob_fields[OF Inr]
        from r t1 e1 e1None f2 f3 show ?thesis by (auto split: if_splits)
      qed
    qed
  qed
qed

text \<open>
  Claim C8, as amended. \<open>finishDDLJob\<close> works inside the transaction of its caller and
  does, in this order: the deferred clean-up of the type (a range deletion is asked of the
  delete-range manager exactly for drop schema, drop table, truncate table and drop index
  jobs and for an add index job in state rollback-done, when the version of the job is
  known), then the dequeue, then the completion timestamp (the start timestamp of the
  transaction), then the history entry keyed by the ID of the job. A clean-up that fails
  ends the function before anything is dequeued, every failure leaves the history as it
  was, and on success the queue has lost its head and the history holds the stamped job
  under its ID.
\<close>

theorem finishDDLJob_steps:
  assumes "finishDDLJob env t j = (t', j', err)"
  shows "calls t' = calls t @ (if needsDeleteRange j \<and> Version j \<le> currentVersion env
                              then [CallAddDelRangeJob (ID j)] else [])
    \<and> (needsDeleteRange j \<and> (currentVersion env < Version j \<or> addDelRangeJob env j \<noteq> None)
         \<longrightarrow> err \<noteq> None \<and> queueJobs t' = queueJobs t)
    \<and> (err \<noteq> None \<longrightarrow> historyJobs t' = historyJobs t)
    \<and> (err = None \<longrightarrow>
          queueJobs t' = drop 1 (queueJobs t)
          \<and> j' = j\<lparr>BinlogInfo := (BinlogInfo j)\<lparr>FinishedTS := txnStartTS t\<rparr>\<rparr>
          \<and> historyJobs t' = (historyJobs t)(ID j \<mapsto> j'\<lparr>Args := None\<rparr>))"
  using assms by (rule finishDDLJob_effect)

theorem finishDDLJob_steps_witness:
  "finishDDLJob env0 (world0\<lparr>defaultJobs := [dropTableJob]\<rparr>) dropTableJob
     = (world0\<lparr>historyJobs := [7 \<mapsto> dropTableJob], calls := [CallAddDelRangeJob 7]\<rparr>,
        dropTableJob, None)
   \<and> calls (world0\<lparr>historyJobs := [7 \<mapsto> dropTableJob], calls := [CallAddDelRangeJob 7]\<rparr>)
       = [CallAddDelRangeJob 7]
   \<and> queueJobs (world0\<lparr>historyJobs := [7 \<mapsto> dropTableJob], calls := [CallAddDelRangeJob 7]\<rparr>)
       = []"
proof -
  have run: "finishDDLJob env0 (world0\<lparr>defaultJobs := [dropTableJob]\<rparr>) dropTableJob
     = (world0\<lparr>historyJobs := [7 \<mapsto> dropTableJob], calls := [CallAddDelRangeJob 7]\<rparr>,
        dropTableJob, None)"
    by (simp add: finishDDLJob_def finishCleanup_def deleteRange_def DeQueueDDLJob_def
      AddHistoryDDLJob_def queueJobs_def setQueueJobs_def Let_def
      env0_def world0_def dropTableJob_def job0_def record_call_def)
  show ?thesis
    using finishDDLJob_steps [OF run] run
    by (simp add: world0_def queueJobs_def dropTableJob_def job0_def needsDeleteRange_def env0_def)
qed


text \<open>
  Claim C8 as stated puts the dequeue before the clean-up. When the dequeue fails, the
  range deletion of a drop-table job has already been asked for, and the job is still at
  the head of its queue: the clean-up comes first.
\<close>

theorem finishDDLJob_cleanup_first:
  "finishDDLJob (env0\<lparr>fault := deqFails\<rparr>) (world0\<lparr>defaultJobs := [dropTableJob]\<rparr>) dropTableJob
     = (world0\<lparr>defaultJobs := [dropTableJob], calls := [CallAddDelRangeJob 7]\<rparr>, dropTableJob,
        Some (PlainError ''store unreachable''))"
  by (simp add: finishDDLJob_def finishCleanup_def deleteRange_def DeQueueDDLJob_def
      env0_def world0_def dropTableJob_def job0_def deqFails_def record_call_def)

text \<open>
  Claim C10. When the record version of a job is greater than the protocol version of the
  process and the job is of a kind whose finalization asks for a range deletion (drop
  schema, drop table, truncate table, drop index, or an add index that was rolled back),
  \<open>finishDDLJob\<close> fails with the invalid-job-version error before anything is dequeued:
  the state is returned as it was, so the job is still in its queue and the history has
  no new entry, and the delete-range manager was not called.
\<close>

theorem finishDDLJob_invalid_version:
  assumes "currentVersion env < Version j" and "needsDeleteRange j"
  shows "finishDDLJob env t j
           = (t, j, Some (TError (ErrInvalidJobVersion (Version j) (currentVersion env))))"
  using assms by (simp add: finishDDLJob_def finishCleanup_needs deleteRange_def)

theorem finishDDLJob_invalid_version_witness:
  "currentVersion env0 < Version (dropTableJob\<lparr>Version := 2\<rparr>)
   \<and> needsDeleteRange (dropTableJob\<lparr>Version := 2\<rparr>)
   \<and> finishDDLJob env0 (world0\<lparr>defaultJobs := [dropTableJob\<lparr>Version := 2\<rparr>]\<rparr>)
        (dropTableJob\<lparr>Version := 2\<rparr>)
      = (world0\<lparr>defaultJobs := [dropTableJob\<lparr>Version := 2\<rparr>]\<rparr>,
         dropTableJob\<lparr>Version := 2\<rparr>,
         Some (TError (ErrInvalidJobVersion 2 1)))"
  using finishDDLJob_invalid_version [of env0 "dropTableJob\<lparr>Version := 2\<rparr>"
      "world0\<lparr>defaultJobs := [dropTableJob\<lparr>Version := 2\<rparr>]\<rparr>"]
  by (simp add: env0_def job0_def dropTableJob_def needsDeleteRange_def)


section \<open>Updating the head of the queue\<close>

lemma finishDDLJob_job:
  assumes "finishDDLJob env t j = (t', j', err)"
  shows "j' = j \<or> (\<exists>ts. j' = j\<lparr>BinlogInfo := (BinlogInfo j)\<lparr>FinishedTS := ts\<rparr>\<rparr>)"
proof -
  obtain t1 e1 where c: "finishCleanup env t j = (t1, e1)"
    by (cases "finishCleanup env t j")
  show ?thesis
  proof (cases e1)
    case (Some e)
    with assms c show ?thesis by (simp add: finishDDLJob_def)
  next
    case None
    show ?thesis
    proof (cases "DeQueueDDLJob env t1")
      case (Inl e)
      with assms c None show ?thesis by (simp add: finishDDLJob_def)
    next
      case (Inr p)
      then obtain t2 r where d: "DeQueueDDLJob env t1 = Inr (t2, r)" by (cases p) auto
      with assms c None have "j' = j\<lparr>BinlogInfo := (BinlogInfo j)\<lparr>FinishedTS := txnStartTS t2\<rparr>\<rparr>"
        by (auto simp: finishDDLJob_def Let_def split: sum.splits)
      then show ?thesis by blast
    qed
  qed
qed

text \<open>
  Claim C6. When the update of a job fails with the entry-too-large error of the store,
  \<open>handleUpdateJobError\<close> sets the state of the job to cancelled and its schema state
  to none, clears its \<open>BinlogInfo\<close>, records the error on the job, and finalizes that job
  with \<open>finishDDLJob\<close>, so that, the finalization succeeding, the history holds the job
  under its ID and the queue has lost its head. Any other error of the update is returned
  as it is, with the job and the state untouched.
\<close>

theorem handleUpdateJobError_cases:
  assumes "handleUpdateJobError env t j (Some e) = (t', j', err)"
  shows "(e = TError ErrEntryTooLarge \<longrightarrow>
            State j' = JobStateCancelled \<and> SchemaState j' = StateNone
            \<and> Error j' = Some ErrEntryTooLarge
            \<and> SchemaVersion (BinlogInfo j') = 0 \<and> DBInfo (BinlogInfo j') = None
            \<and> TableInfo (BinlogInfo j') = None
            \<and> (t', j', err) =
                finishDDLJob env t
                  (j\<lparr>BinlogInfo := Clean (BinlogInfo j), Error := Some ErrEntryTooLarge,
                     SchemaState := StateNone, State := JobStateCancelled\<rparr>)
            \<and> (err = None \<longrightarrow>
                  historyJobs t' (ID j) = Some (j'\<lparr>Args := None\<rparr>)
                  \<and> queueJobs t' = drop 1 (queueJobs t)))
       \<and> (e \<noteq> TError ErrEntryTooLarge \<longrightarrow> t' = t \<and> j' = j \<and> err = Some e)"
proof (cases "e = TError ErrEntryTooLarge")
  case False
  with assms show ?thesis by (simp add: handleUpdateJobError_def)
next
  case True
  let ?j = "j\<lparr>BinlogInfo := Clean (BinlogInfo j), Error := Some ErrEntryTooLarge,
               SchemaState := StateNone, State := JobStateCancelled\<rparr>"
  from True assms have f: "finishDDLJob env t ?j = (t', j', err)"
    by (simp add: handleUpdateJobError_def toTError_def)
  have j': "j' = ?j \<or> (\<exists>ts. j' = ?j\<lparr>BinlogInfo := (BinlogInfo ?j)\<lparr>FinishedTS := ts\<rparr>\<rparr>)"
    by (rule finishDDLJob_job[OF f])
  from j' have fields: "State j' = JobStateCancelled" "SchemaState j' = StateNone"
    "Error j' = Some ErrEntryTooLarge" "SchemaVersion (BinlogInfo j') = 0"
    "DBInfo (BinlogInfo j') = None" "TableInfo (BinlogInfo j') = None"
    by (auto simp: Clean_def)
  from finishDDLJob_effect[OF f]
  have "err = None \<longrightarrow> historyJobs t' (ID j) = Some (j'\<lparr>Args := None\<rparr>)
          \<and> queueJobs t' = drop 1 (queueJobs t)"
    by simp
  with fields f True show ?thesis by simp
qed

theorem handleUpdateJobError_cases_witness:
  "handleUpdateJobError env0 (world0\<lparr>defaultJobs := [largeJob]\<rparr>) largeJob
       (Some (TError ErrEntryTooLarge))
     = (world0\<lparr>historyJobs :=
                  [9 \<mapsto> largeJob\<lparr>State := JobStateCancelled, SchemaState := StateNone,
                                  Error := Some ErrEntryTooLarge,
                                  BinlogInfo := \<lparr>SchemaVersion = 0, DBInfo = None,
                                                 TableInfo = None, FinishedTS = 0\<rparr>\<rparr>]\<rparr>,
        largeJob\<lparr>State := JobStateCancelled, SchemaState := StateNone,
                 Error := Some ErrEntryTooLarge,
                 BinlogInfo := \<lparr>SchemaVersion = 0, DBInfo = None, TableInfo = None,
                                FinishedTS = 0\<rparr>\<rparr>,
        None)
   \<and> State (largeJob\<lparr>State := JobStateCancelled, SchemaState := StateNone,
                 Error := Some ErrEntryTooLarge,
                 BinlogInfo := \<lparr>SchemaVersion = 0, DBInfo = None, TableInfo = None,
                                FinishedTS = 0\<rparr>\<rparr>) = JobStateCancelled
   \<and> handleUpdateJobError env0 (world0\<lparr>defaultJobs := [largeJob]\<rparr>) largeJob
       (Some (PlainError ''store unreachable''))
     = (world0\<lparr>defaultJobs := [largeJob]\<rparr>, largeJob, Some (PlainError ''store unreachable''))"
proof -
  have run: "handleUpdateJobError env0 (world0\<lparr>defaultJobs := [largeJob]\<rparr>) largeJob
       (Some (TError ErrEntryTooLarge))
     = (world0\<lparr>historyJobs :=
                  [9 \<mapsto> largeJob\<lparr>State := JobStateCancelled, SchemaState := StateNone,
                                  Error := Some ErrEntryTooLarge,
                                  BinlogInfo := \<lparr>SchemaVersion = 0, DBInfo = None,
                                                 TableInfo = None, FinishedTS = 0\<rparr>\<rparr>]\<rparr>,
        largeJob\<lparr>State := JobStateCancelled, SchemaState := StateNone,
                 Error := Some ErrEntryTooLarge,
                 BinlogInfo := \<lparr>SchemaVersion = 0, DBInfo = None, TableInfo = None,
                                FinishedTS = 0\<rparr>\<rparr>,
        None)"
    by (simp add: handleUpdateJobError_def toTError_def Clean_def finishDDLJob_def
        finishCleanup_def DeQueueDDLJob_def AddHistoryDDLJob_def queueJobs_def
        setQueueJobs_def Let_def env0_def world0_def largeJob_def job0_def)
  have other: "handleUpdateJobError env0 (world0\<lparr>defaultJobs := [largeJob]\<rparr>) largeJob
       (Some (PlainError ''store unreachable''))
     = (world0\<lparr>defaultJobs := [largeJob]\<rparr>, largeJob, Some (PlainError ''store unreachable''))"
    by (simp add: handleUpdateJobError_def)
  show ?thesis
    using handleUpdateJobError_cases [OF run] handleUpdateJobError_cases [OF other] run other
    by simp
qed

text \<open>
  Claim C9, as amended. \<open>updateDDLJob\<close> writes the job over the head of the queue. The
  raw arguments of the job are kept as they are when the run of the job met an error and
  the job has raw arguments but no decoded ones; in every other case, so whenever the
  arguments were decoded and whenever the run met no error, the raw arguments written are
  the serialization of the typed arguments.
\<close>

theorem updateDDLJob_raw_args:
  assumes "updateDDLJob env t j meetErr = Inr t'"
  shows "queueJobs t \<noteq> []
    \<and> queueJobs t' =
        j\<lparr>RawArgs := (if meetErr \<and> RawArgs j \<noteq> None \<and> Args j = None then RawArgs j
                       else Some (marshalArgs env (Args j))),
          Args := None\<rparr> # drop 1 (queueJobs t)"
  using assms
  by (cases "queueJobs t")
    (auto simp: updateDDLJob_def UpdateDDLJob_def Let_def split: option.splits if_splits)

theorem updateDDLJob_raw_args_witness:
  "updateDDLJob env0 (world0\<lparr>defaultJobs := [undecodedJob]\<rparr>) undecodedJob True
       = Inr (world0\<lparr>defaultJobs := [undecodedJob]\<rparr>)
   \<and> queueJobs (world0\<lparr>defaultJobs := [undecodedJob]\<rparr>) = [undecodedJob]"
proof -
  have run: "updateDDLJob env0 (world0\<lparr>defaultJobs := [undecodedJob]\<rparr>) undecodedJob True
       = Inr (world0\<lparr>defaultJobs := [undecodedJob]\<rparr>)"
    by (simp add: updateDDLJob_def UpdateDDLJob_def queueJobs_def setQueueJobs_def
      env0_def world0_def undecodedJob_def job0_def)
  show ?thesis
    using updateDDLJob_raw_args [OF run] run
    by (simp add: queueJobs_def world0_def)
qed


text \<open>
  Claim C9 as stated keeps the raw arguments of every job that was never decoded. After
  a run without error, the raw arguments \<open>[1]\<close> of a job that was never decoded are
  overwritten with the serialization of its absent typed arguments.
\<close>

theorem updateDDLJob_overwrites_undecoded:
  "Args undecodedJob = None \<and> RawArgs undecodedJob = Some ''[1]''
   \<and> updateDDLJob env0 (world0\<lparr>defaultJobs := [undecodedJob]\<rparr>) undecodedJob False
       = Inr (world0\<lparr>defaultJobs := [undecodedJob\<lparr>RawArgs := Some ''null''\<rparr>]\<rparr>)"
  by (simp add: updateDDLJob_def UpdateDDLJob_def queueJobs_def setQueueJobs_def
      env0_def world0_def undecodedJob_def job0_def)

section \<open>Running a job\<close>

text \<open>
  Claim C3, as amended. For a job in state cancelling, the path is decided by three
  conditions together: the job is an add index job, its schema state is write
  reorganization, and its \<open>SnapshotVer\<close> is not 0. When all three hold, \<open>runDDLJob\<close>
  notifies the reorganization of the cancellation and dispatches the handler of the job,
  whose error, if any, is recorded on the job. Otherwise it sets the state to cancelled,
  records the cancellation error, increments \<open>ErrorCount\<close>, and returns without
  dispatching a handler.
\<close>

theorem runDDLJob_cancelling:
  assumes "IsCancelling j"
  shows "(Type j = ActionAddIndex \<and> SchemaState j = StateWriteReorganization \<and> SnapshotVer j \<noteq> 0
           \<longrightarrow> (case handler env ActionAddIndex (schemaData t) j of
                  (s', j', ver, err) \<Rightarrow>
                    runDDLJob env t j =
                      (t\<lparr>schemaData := s',
                         calls := calls t @ [CallNotifyReorgCancel, CallHandler ActionAddIndex (ID j)]\<rparr>,
                       (case err of
                          None \<Rightarrow> j'
                        | Some e \<Rightarrow> j'\<lparr>Error := Some (toTError e), ErrorCount := ErrorCount j' + 1\<rparr>),
                       ver, err)))
       \<and> (\<not> (Type j = ActionAddIndex \<and> SchemaState j = StateWriteReorganization
                \<and> SnapshotVer j \<noteq> 0)
           \<longrightarrow> runDDLJob env t j =
                 (t, j\<lparr>State := JobStateCancelled, Error := Some ErrCancelledDDLJob,
                       ErrorCount := ErrorCount j + 1\<rparr>, 0, None))"
proof -
  from assms have nf: "\<not> IsFinished j" "\<not> IsRollingback j \<or> True"
    by (auto simp: IsCancelling_def IsFinished_def)
  show ?thesis
    using assms nf(1)
    by (auto simp: runDDLJob_def dispatch_def callHandler_def record_call_def Let_def
        split: prod.splits option.splits)
qed

theorem runDDLJob_cancelling_witness:
  "IsCancelling reorgJob
   \<and> runDDLJob env0 world0 reorgJob
       = (world0\<lparr>schemaData := 1, calls := [CallNotifyReorgCancel, CallHandler ActionAddIndex 4]\<rparr>,
          reorgJob\<lparr>State := JobStateDone, SchemaState := StatePublic\<rparr>, 1, None)"
proof -
  have c: "IsCancelling reorgJob"
    by (simp add: IsCancelling_def reorgJob_def job0_def)
  show ?thesis
    using runDDLJob_cancelling [OF c, of env0 world0] c
    by (simp add: reorgJob_def job0_def env0_def world0_def)
qed

text \<open>
  Claim C3 as stated makes a non-zero \<open>SnapshotVer\<close> the sole condition. An add column
  job in state cancelling with \<open>SnapshotVer = 5\<close> is cancelled at once: no cancellation
  is signalled and no handler is dispatched.
\<close>

theorem runDDLJob_cancelling_snapshot:
  "IsCancelling cancellingJob \<and> SnapshotVer cancellingJob \<noteq> 0
   \<and> runDDLJob env0 world0 cancellingJob
       = (world0, cancellingJob\<lparr>State := JobStateCancelled, Error := Some ErrCancelledDDLJob,
                                ErrorCount := 1\<rparr>, 0, None)"
  by (simp add: runDDLJob_def IsCancelling_def IsFinished_def cancellingJob_def job0_def)

section \<open>The dependency of a new job\<close>




section \<open>The drain of the legacy queue\<close>

lemma finishDDLJob_frame:
  assumes "finishDDLJob env t j = (t', j', None)"
  shows "jobListKey t' = jobListKey t" "txnStartTS t' = txnStartTS t" "schemaData t' = schemaData t"
    "jobListKey t = AddIndexJobListKey \<Longrightarrow> defaultJobs t' = defaultJobs t"
proof -
  obtain t1 e1 where c: "finishCleanup env t j = (t1, e1)"
    by (cases "finishCleanup env t j")
  have t1: "t1 = t \<or> t1 = record_call (CallAddDelRangeJob (ID j)) t"
    using c by (auto simp: finishCleanup_eq dest: deleteRange_calls split: if_splits)
  from assms c obtain t2 r where d: "DeQueueDDLJob env t1 = Inr (t2, r)"
    and h: "AddHistoryDDLJob env t2 (j\<lparr>BinlogInfo := (BinlogInfo j)\<lparr>FinishedTS := txnStartTS t2\<rparr>\<rparr>) = Inr t'"
    by (auto simp: finishDDLJob_def Let_def split: option.splits sum.splits)
  note f2 = DeQueueDDLJob_fields[OF d] and f3 = AddHistoryDDLJob_fields[OF h]
  have ts: "txnStartTS t' = txnStartTS t2"
    using AddHistoryDDLJob_Inr[OF h] by simp
  show "jobListKey t' = jobListKey t" "txnStartTS t' = txnStartTS t" "schemaData t' = schemaData t"
    using t1 f2 f3 ts by auto
  assume k: "jobListKey t = AddIndexJobListKey"
  have "defaultJobs t2 = defaultJobs t1"
    using DeQueueDDLJob_Inr[OF d] k t1 by (auto simp: setQueueJobs_def split: if_splits)
  with t1 f3 show "defaultJobs t' = defaultJobs t" by auto
qed

lemma clean_step_stop:
  assumes "jobListKey m = AddIndexJobListKey"
    and "cleanAddIndexQueueJobs_step env m = CleanStop m' None"
  shows "m' = m \<and> addIndexJobs m = []"
  using assms
  by (auto simp: cleanAddIndexQueueJobs_step_def getFirstDDLJob_def GetDDLJob_def queueJobs_def
      Let_def split: sum.splits option.splits if_splits prod.splits)

lemma clean_step_again:
  assumes k: "jobListKey m = AddIndexJobListKey"
    and step: "cleanAddIndexQueueJobs_step env m = CleanAgain m2"
  shows "jobListKey m2 = AddIndexJobListKey \<and> txnStartTS m2 = txnStartTS m
    \<and> addIndexJobs m2 = drop 1 (addIndexJobs m) \<and> addIndexJobs m \<noteq> []
    \<and> historyJobs m2 = archiveLegacy (txnStartTS m) (historyJobs m) [hd (addIndexJobs m)]
    \<and> defaultJobs m2 = defaultJobs m @ requeueLegacy env (schemaData m) [hd (addIndexJobs m)]
    \<and> requeueLegacy env (schemaData m) (addIndexJobs m)
        = requeueLegacy env (schemaData m) [hd (addIndexJobs m)]
          @ requeueLegacy env (schemaData m2) (drop 1 (addIndexJobs m))"
proof -
  obtain j where first: "getFirstDDLJob env m = Inr (Some j)"
    using step by (auto simp: cleanAddIndexQueueJobs_step_def split: sum.splits option.splits)
  with k obtain rest where q: "addIndexJobs m = j # rest"
    by (cases "addIndexJobs m")
      (auto simp: getFirstDDLJob_def GetDDLJob_def queueJobs_def split: option.splits if_splits)
  show ?thesis
  proof (cases "SchemaState j = StatePublic \<or> SchemaState j = StateNone")
    case True
    let ?m1 = "if SchemaState j = StateNone then m
               else record_call (CallSetDDLBinlog (ID j) (Query j)) m"
    let ?j1 = "if SchemaState j = StateNone then j\<lparr>State := JobStateCancelled\<rparr>
               else j\<lparr>State := JobStateSynced\<rparr>"
    from True step first obtain j' where f: "finishDDLJob env ?m1 ?j1 = (m2, j', None)"
      by (auto simp: cleanAddIndexQueueJobs_step_def Let_def split: prod.splits option.splits)
    have k1: "jobListKey ?m1 = AddIndexJobListKey" using k by simp
    note fr = finishDDLJob_frame[OF f] and eff = finishDDLJob_effect[OF f]
    have q1: "queueJobs ?m1 = j # rest" using q k by (simp add: queueJobs_def)
    from eff have "queueJobs m2 = rest" using q1 by simp
    with fr(1) k1 have a: "addIndexJobs m2 = rest" by (simp add: queueJobs_def)
    from eff have h: "historyJobs m2 = (historyJobs m)(ID j \<mapsto>
        ?j1\<lparr>BinlogInfo := (BinlogInfo ?j1)\<lparr>FinishedTS := txnStartTS m\<rparr>, Args := None\<rparr>)"
      by (auto split: if_splits)
    from fr k1 have "jobListKey m2 = AddIndexJobListKey" "txnStartTS m2 = txnStartTS m"
      "defaultJobs m2 = defaultJobs m" "schemaData m2 = schemaData m"
      by (auto split: if_splits)
    with a h q True show ?thesis by (auto split: if_splits)
  next
    case False
    from False step first obtain tblInfo j1 u n s' j2 v m3 r m4 where
      g: "getTableInfo env (schemaData m) j (SchemaID j) = Inr tblInfo"
      and dc: "decodeIndexArgs env j = Inr (j1, u, n)"
      and cv: "convert2RollbackJob env (schemaData m) j1 tblInfo (findIndexByName env n tblInfo) None
                = (s', j2, v, None)"
      and d: "DeQueueDDLJob env (m\<lparr>schemaData := s'\<rparr>) = Inr (m3, r)"
      and e: "EnQueueDDLJob env (SetJobListKey DefaultJobListKey m3) j2 = Inr m4"
      and m2: "m2 = SetJobListKey AddIndexJobListKey m4"
      by (auto simp: cleanAddIndexQueueJobs_step_def split: prod.splits option.splits sum.splits)
    from DeQueueDDLJob_Inr[OF d] k q
    have m3: "m3 = m\<lparr>schemaData := s', addIndexJobs := rest\<rparr>"
      by (auto simp: queueJobs_def setQueueJobs_def)
    from e have m4: "m4 = (SetJobListKey DefaultJobListKey m3)
        \<lparr>defaultJobs := defaultJobs m3 @ [j2\<lparr>RawArgs := Some (marshalArgs env (Args j2)), Args := None\<rparr>]\<rparr>"
      by (auto simp: EnQueueDDLJob_def SetJobListKey_def queueJobs_def setQueueJobs_def
          split: option.splits)
    from m2 m3 m4 q False g dc cv show ?thesis
      by (simp add: SetJobListKey_def)
  qed
qed

lemma archiveLegacy_append:
  "archiveLegacy ts h (xs @ ys) = archiveLegacy ts (archiveLegacy ts h xs) ys"
  by (induction xs arbitrary: h) auto

lemma clean_loop_result:
  "jobListKey m = AddIndexJobListKey \<Longrightarrow> cleanAddIndexQueueJobs_loop env m = (m', None) \<Longrightarrow>
     addIndexJobs m' = []
     \<and> historyJobs m' = archiveLegacy (txnStartTS m) (historyJobs m) (addIndexJobs m)
     \<and> defaultJobs m' = defaultJobs m @ requeueLegacy env (schemaData m) (addIndexJobs m)"
proof (induction env m rule: cleanAddIndexQueueJobs_loop.induct)
  case (1 env m)
  show ?case
  proof (cases "cleanAddIndexQueueJobs_step env m")
    case (CleanStop m1 err)
    with "1.prems"(2) have "m1 = m'" "err = None"
      by (simp_all add: cleanAddIndexQueueJobs_loop.simps[of env m])
    with CleanStop have "cleanAddIndexQueueJobs_step env m = CleanStop m' None" by simp
    from clean_step_stop[OF "1.prems"(1) this] show ?thesis by simp
  next
    case (CleanAgain m2)
    note st = clean_step_again[OF "1.prems"(1) CleanAgain]
    from CleanAgain "1.prems"(2) have l: "cleanAddIndexQueueJobs_loop env m2 = (m', None)"
      by (simp add: cleanAddIndexQueueJobs_loop.simps[of env m])
    from st have k2: "jobListKey m2 = AddIndexJobListKey" by simp
    note ih = "1.IH"[OF CleanAgain k2 l]
    from st obtain j rest where q: "addIndexJobs m = j # rest"
      by (cases "addIndexJobs m") auto
    have "archiveLegacy (txnStartTS m) (historyJobs m) (addIndexJobs m)
          = archiveLegacy (txnStartTS m) (archiveLegacy (txnStartTS m) (historyJobs m) [j]) rest"
      using archiveLegacy_append[of "txnStartTS m" "historyJobs m" "[j]" rest] q by simp
    with ih st q show ?thesis by simp
  qed
qed

text \<open>
  Claim C7. When \<open>cleanAddIndexQueueJobs\<close> returns without an error, the legacy queue is
  empty; every legacy job whose schema state is public or none has been finalized into
  the history under its ID (cancelled when the schema state is none, synced when it is
  public) and is not on the current queue; and every other legacy job has been converted
  by \<open>convert2RollbackJob\<close>, taken off the legacy queue and appended, in order, to the
  current queue. The loop stops without an error only when the legacy queue is empty.
\<close>

theorem cleanAddIndexQueueJobs_drains:
  assumes "cleanAddIndexQueueJobs env w = (w', None)"
  shows "addIndexJobs w' = []
     \<and> historyJobs w' = archiveLegacy (txnStartTS w) (historyJobs w) (addIndexJobs w)
     \<and> defaultJobs w' = defaultJobs w @ requeueLegacy env (schemaData w) (addIndexJobs w)"
  using clean_loop_result[of "SetJobListKey AddIndexJobListKey (NewMeta w)" env w'] assms
  by (simp add: cleanAddIndexQueueJobs_def SetJobListKey_def NewMeta_def)

theorem cleanAddIndexQueueJobs_drains_witness:
  "cleanAddIndexQueueJobs env0
       (world0\<lparr>addIndexJobs := [legacyNoneJob, legacyWriteOnlyJob, legacyPublicJob],
               txnStartTS := 100\<rparr>)
     = (world0\<lparr>defaultJobs := [legacyWriteOnlyJob\<lparr>State := JobStateRollingback,
                                                   SchemaState := StateDeleteOnly\<rparr>],
               historyJobs :=
                 [1 \<mapsto> legacyNoneJob\<lparr>State := JobStateCancelled,
                                     BinlogInfo := (BinlogInfo job0)\<lparr>FinishedTS := 100\<rparr>\<rparr>,
                  3 \<mapsto> legacyPublicJob\<lparr>State := JobStateSynced,
                                       BinlogInfo := (BinlogInfo job0)\<lparr>FinishedTS := 100\<rparr>\<rparr>],
               schemaData := 1, jobListKey := AddIndexJobListKey, txnStartTS := 100,
               calls := [CallSetDDLBinlog 3 []]\<rparr>, None)
   \<and> requeueLegacy env0 0 [legacyNoneJob, legacyWriteOnlyJob, legacyPublicJob]
       = [legacyWriteOnlyJob\<lparr>State := JobStateRollingback, SchemaState := StateDeleteOnly\<rparr>]"
proof -
  have run: "cleanAddIndexQueueJobs env0
       (world0\<lparr>addIndexJobs := [legacyNoneJob, legacyWriteOnlyJob, legacyPublicJob],
               txnStartTS := 100\<rparr>)
     = (world0\<lparr>defaultJobs := [legacyWriteOnlyJob\<lparr>State := JobStateRollingback,
                                                   SchemaState := StateDeleteOnly\<rparr>],
               historyJobs :=
                 [1 \<mapsto> legacyNoneJob\<lparr>State := JobStateCancelled,
                                     BinlogInfo := (BinlogInfo job0)\<lparr>FinishedTS := 100\<rparr>\<rparr>,
                  3 \<mapsto> legacyPublicJob\<lparr>State := JobStateSynced,
                                       BinlogInfo := (BinlogInfo job0)\<lparr>FinishedTS := 100\<rparr>\<rparr>],
               schemaData := 1, jobListKey := AddIndexJobListKey, txnStartTS := 100,
               calls := [CallSetDDLBinlog 3 []]\<rparr>, None)"
    by (simp add: run_defs example_defs)
  show ?thesis
    using cleanAddIndexQueueJobs_drains [OF run] run
    by (simp add: example_defs)
qed

section \<open>One round of a drain pass\<close>

lemma txnBody_dispatch:
  assumes "isOwner"
    and "getFirstDDLJob env (NewMeta txn) = Inr (Some j0)"
    and "\<not> IsDone j0" and "\<not> IsRollbackDone j0"
    and "runDDLJob env (record_call (CallOnJobRunBefore (ID j0)) (NewMeta txn)) j0
           = (t2, j2, ver, runJobErr)"
    and "(if IsCancelled j2 then finishDDLJob env t2 j2
          else (case updateDDLJob env t2 j2 (runJobErr \<noteq> None) of
                  Inl e \<Rightarrow> handleUpdateJobError env t2 j2 (Some e)
                | Inr t3 \<Rightarrow> handleUpdateJobError env t3 j2 None)) = (t4, j4, err)"
  shows "txnBody env False False isOwner waitTime txn
           = (t4, \<lparr>out_job = Some j4, out_schemaVer = ver, out_runJobErr = runJobErr,
                   out_once = False\<rparr>, err)"
proof (cases "IsCancelled j2")
  case True
  with assms show ?thesis by (simp add: txnBody_def Let_def)
next
  case False
  with assms show ?thesis by (simp add: txnBody_def Let_def)
qed

lemma waitSchemaChanged_skip:
  "waitTime = 0 \<or> v = 0 \<Longrightarrow> waitSchemaChanged env ctx waitTime v w = w"
  by (auto simp: waitSchemaChanged_def)

lemma waitSchemaChanged_calls:
  assumes "waitTime \<noteq> 0" and "v \<noteq> 0"
  shows "\<exists>rest. calls (waitSchemaChanged env ctx waitTime v w)
            = calls w @ CallOwnerUpdateGlobalVersion v # rest
          \<and> set rest \<subseteq> {CallOwnerCheckAllVersions v, CallCtxDone}"
  using assms by (simp add: waitSchemaChanged_def Let_def split: option.splits)

text \<open>
  Claim C2, as amended. Take a round of a drain pass in which the handler of the head job
  was dispatched without an error; the rest of the transaction finalizes the job when it
  was cancelled and updates it at the head of the queue otherwise. When the transaction
  returns no error and commits, the worker calls the schema syncer (it publishes the
  version the handler produced, then waits for all servers) before the next round if and
  only if the resulting state of the job is running, rolling back, done or rollback-done,
  the version produced is not 0, and the wait time, twice the lease in 64-bit arithmetic,
  is not 0; otherwise nothing is asked of the syncer and the next round starts at once.
  When the transaction fails, the pass returns and nothing is asked of the syncer.
\<close>

theorem handleDDLJobQueue_step_wait:
  assumes "\<not> closed inp" and "owner inp"
    and "getFirstDDLJob env (NewMeta (w\<lparr>txnStartTS := startTS inp\<rparr>)) = Inr (Some j0)"
    and "\<not> IsDone j0" and "\<not> IsRollbackDone j0"
    and "runDDLJob env (record_call (CallOnJobRunBefore (ID j0))
            (NewMeta (w\<lparr>txnStartTS := startTS inp\<rparr>))) j0 = (t2, j2, ver, None)"
    and "(if IsCancelled j2 then finishDDLJob env t2 j2
          else (case updateDDLJob env t2 j2 False of
                  Inl e \<Rightarrow> handleUpdateJobError env t2 j2 (Some e)
                | Inr t3 \<Rightarrow> handleUpdateJobError env t3 j2 None)) = (t4, j4, err)"
  shows "(err = None \<and> commitErr inp = None \<longrightarrow>
          (\<exists>w'. handleDDLJobQueue_step env False False inp w = Continue False w'
            \<and> ((IsRunning j4 \<or> IsRollingback j4 \<or> IsDone j4 \<or> IsRollbackDone j4) \<and> ver \<noteq> 0
                  \<and> 2 * lease env \<noteq> 0
                \<longrightarrow> (\<exists>rest. calls w' = calls t4 @ [CallOnJobUpdated (ID j4),
                                                     CallOwnerUpdateGlobalVersion ver] @ rest))
            \<and> (\<not> ((IsRunning j4 \<or> IsRollingback j4 \<or> IsDone j4 \<or> IsRollbackDone j4)
                    \<and> ver \<noteq> 0 \<and> 2 * lease env \<noteq> 0)
                \<longrightarrow> calls w' = calls t4 @ [CallOnJobUpdated (ID j4)]
                                 @ (if IsSynced j4 then [CallNotifyJobDone] else []))))
    \<and> (\<not> (err = None \<and> commitErr inp = None) \<longrightarrow>
          (\<exists>w' e. handleDDLJobQueue_step env False False inp w = Return w' (Some e)
            \<and> calls w' = calls t4))"
proof -
  let ?out = "\<lparr>out_job = Some j4, out_schemaVer = ver, out_runJobErr = None, out_once = False\<rparr>"
  have rest: "(if IsCancelled j2 then finishDDLJob env t2 j2
          else (case updateDDLJob env t2 j2 ((None :: error option) \<noteq> None) of
                  Inl e \<Rightarrow> handleUpdateJobError env t2 j2 (Some e)
                | Inr t3 \<Rightarrow> handleUpdateJobError env t3 j2 None)) = (t4, j4, err)"
    using assms(7) by (cases "IsCancelled j2") simp_all
  have body: "txnBody env False False (owner inp) (2 * lease env) (w\<lparr>txnStartTS := startTS inp\<rparr>)
      = (t4, ?out, err)"
    by (rule txnBody_dispatch[OF assms(2) assms(3) assms(4) assms(5) assms(6) rest])
  show ?thesis
  proof (cases "err = None \<and> commitErr inp = None")
    case fail: False
    then obtain e where e: "(if err \<noteq> None then err else commitErr inp) = Some e"
      by (cases err; cases "commitErr inp") auto
    from fail body e
    have "RunInNewTxn inp (txnBody env False False (owner inp) (2 * lease env)) w
        = (rollback w t4, ?out, Some e)"
      by (cases err; cases "commitErr inp") (auto simp: RunInNewTxn_def)
    with assms(1)
    have "handleDDLJobQueue_step env False False inp w = Return (rollback w t4) (Some e)"
      by (simp add: handleDDLJobQueue_step_def Let_def)
    moreover have "calls (rollback w t4) = calls t4" by (simp add: rollback_def)
    ultimately show ?thesis using fail by blast
  next
    case ok: True
    with body have txn: "RunInNewTxn inp (txnBody env False False (owner inp) (2 * lease env)) w
        = (t4, ?out, None)"
      by (simp add: RunInNewTxn_def)
    let ?w3 = "record_call (CallOnJobUpdated (ID j4)) t4"
    let ?inSet = "IsRunning j4 \<or> IsRollingback j4 \<or> IsDone j4 \<or> IsRollbackDone j4"
    let ?w4 = "if ?inSet then waitSchemaChanged env None (2 * lease env) ver ?w3 else ?w3"
    let ?w5 = "if IsSynced j4 then record_call CallNotifyJobDone ?w4 else ?w4"
    have step: "handleDDLJobQueue_step env False False inp w = Continue False ?w5"
      using txn assms(1) by (simp add: handleDDLJobQueue_step_def Let_def)
    have notSynced: "?inSet \<Longrightarrow> \<not> IsSynced j4"
      by (auto simp: IsRunning_def IsRollingback_def IsDone_def IsRollbackDone_def IsSynced_def)
    have "(?inSet \<and> ver \<noteq> 0 \<and> 2 * lease env \<noteq> 0
            \<longrightarrow> (\<exists>rest. calls ?w5 = calls t4 @ [CallOnJobUpdated (ID j4),
                                                CallOwnerUpdateGlobalVersion ver] @ rest))
       \<and> (\<not> (?inSet \<and> ver \<noteq> 0 \<and> 2 * lease env \<noteq> 0)
            \<longrightarrow> calls ?w5 = calls t4 @ [CallOnJobUpdated (ID j4)]
                             @ (if IsSynced j4 then [CallNotifyJobDone] else []))"
    proof (cases "?inSet \<and> ver \<noteq> 0 \<and> 2 * lease env \<noteq> 0")
      case True
      then obtain rest where "calls (waitSchemaChanged env None (2 * lease env) ver ?w3)
         = calls ?w3 @ CallOwnerUpdateGlobalVersion ver # rest"
        using waitSchemaChanged_calls[of "2 * lease env" ver env None ?w3] by auto
      with True notSynced
      have "calls ?w5 = calls t4 @ [CallOnJobUpdated (ID j4), CallOwnerUpdateGlobalVersion ver]
                          @ rest"
        by simp
      with True show ?thesis by blast
    next
      case False
      have "calls ?w5 = calls t4 @ [CallOnJobUpdated (ID j4)]
                          @ (if IsSynced j4 then [CallNotifyJobDone] else [])"
      proof (cases ?inSet)
        case True
        with False have "2 * lease env = 0 \<or> ver = 0" by auto
        from waitSchemaChanged_skip[OF this, of env None ?w3] True notSynced
        show ?thesis by simp
      next
        case False
        then show ?thesis by simp
      qed
      with False show ?thesis by blast
    qed
    with step ok show ?thesis by blast
  qed
qed

theorem handleDDLJobQueue_step_wait_witness:
  "\<not> closed asOwner \<and> owner asOwner
   \<and> handleDDLJobQueue_step env0 False False asOwner (world0\<lparr>defaultJobs := [addColumnJob]\<rparr>)
     = Continue False
        (world0\<lparr>defaultJobs := [addColumnJob\<lparr>State := JobStateDone, SchemaState := StatePublic,
                                              RawArgs := Some ''null''\<rparr>],
                schemaData := 1, txnStartTS := 100,
                calls := [CallOnJobRunBefore 5, CallHandler ActionAddColumn 5,
                          CallOnJobUpdated 5, CallOwnerUpdateGlobalVersion 1,
                          CallOwnerCheckAllVersions 1]\<rparr>)
   \<and> handleDDLJobQueue_step env0 False False
        (asOwner\<lparr>commitErr := Some (PlainError ''write conflict'')\<rparr>)
        (world0\<lparr>defaultJobs := [addColumnJob]\<rparr>)
     = Return
        (world0\<lparr>defaultJobs := [addColumnJob], txnStartTS := 100,
                calls := [CallOnJobRunBefore 5, CallHandler ActionAddColumn 5]\<rparr>)
        (Some (PlainError ''write conflict''))"
  using handleDDLJobQueue_step_wait [of asOwner env0 "world0\<lparr>defaultJobs := [addColumnJob]\<rparr>"
      addColumnJob
      "world0\<lparr>defaultJobs := [addColumnJob], schemaData := 1, txnStartTS := 100,
              calls := [CallOnJobRunBefore 5, CallHandler ActionAddColumn 5]\<rparr>"
      "addColumnJob\<lparr>State := JobStateDone, SchemaState := StatePublic\<rparr>" 1
      "world0\<lparr>defaultJobs := [addColumnJob\<lparr>State := JobStateDone, SchemaState := StatePublic,
                                            RawArgs := Some ''null''\<rparr>],
              schemaData := 1, txnStartTS := 100,
              calls := [CallOnJobRunBefore 5, CallHandler ActionAddColumn 5]\<rparr>"
      "addColumnJob\<lparr>State := JobStateDone, SchemaState := StatePublic\<rparr>" None]
    handleDDLJobQueue_step_wait [of "asOwner\<lparr>commitErr := Some (PlainError ''write conflict'')\<rparr>"
      env0 "world0\<lparr>defaultJobs := [addColumnJob]\<rparr>"
      addColumnJob
      "world0\<lparr>defaultJobs := [addColumnJob], schemaData := 1, txnStartTS := 100,
              calls := [CallOnJobRunBefore 5, CallHandler ActionAddColumn 5]\<rparr>"
      "addColumnJob\<lparr>State := JobStateDone, SchemaState := StatePublic\<rparr>" 1
      "world0\<lparr>defaultJobs := [addColumnJob\<lparr>State := JobStateDone, SchemaState := StatePublic,
                                            RawArgs := Some ''null''\<rparr>],
              schemaData := 1, txnStartTS := 100,
              calls := [CallOnJobRunBefore 5, CallHandler ActionAddColumn 5]\<rparr>"
      "addColumnJob\<lparr>State := JobStateDone, SchemaState := StatePublic\<rparr>" None]
  by (simp add: run_defs example_defs)

text \<open>
  Claim C2 as stated lets the state and the version alone decide. With a lease of 0, a
  job that its handler has left done with the new schema version 1 is followed by no call
  of the syncer.
\<close>

theorem handleDDLJobQueue_step_no_lease:
  "handleDDLJobQueue_step (env0\<lparr>lease := 0\<rparr>) False False asOwner
      (world0\<lparr>defaultJobs := [addColumnJob]\<rparr>)
     = Continue False
        (world0\<lparr>defaultJobs := [addColumnJob\<lparr>State := JobStateDone, SchemaState := StatePublic,
                                              RawArgs := Some ''null''\<rparr>],
                schemaData := 1, txnStartTS := 100,
                calls := [CallOnJobRunBefore 5, CallHandler ActionAddColumn 5,
                          CallOnJobUpdated 5]\<rparr>)
   \<and> runDDLJob (env0\<lparr>lease := 0\<rparr>)
        (record_call (CallOnJobRunBefore 5)
           (NewMeta (world0\<lparr>defaultJobs := [addColumnJob], txnStartTS := 100\<rparr>))) addColumnJob
      = (world0\<lparr>defaultJobs := [addColumnJob], schemaData := 1, txnStartTS := 100,
                calls := [CallOnJobRunBefore 5, CallHandler ActionAddColumn 5]\<rparr>,
         addColumnJob\<lparr>State := JobStateDone, SchemaState := StatePublic\<rparr>, 1, None)"
  by (simp add: handleDDLJobQueue_step_def RunInNewTxn_def txnBody_def NewMeta_def
      getFirstDDLJob_def GetDDLJob_def queueJobs_def setQueueJobs_def runDDLJob_def dispatch_def
      callHandler_def updateDDLJob_def UpdateDDLJob_def handleUpdateJobError_def
      waitSchemaChanged_def record_call_def Let_def
      IsDone_def IsRollbackDone_def IsRunning_def IsRollingback_def IsCancelled_def
      IsCancelling_def IsSynced_def IsFinished_def
      env0_def world0_def asOwner_def addColumnJob_def job0_def)

text \<open>
  The wait time wraps around: with a lease of \<open>2 ^ 63\<close>, the bit pattern of the least
  64-bit integer, twice the lease is 0 and the same round asks nothing of the syncer.
\<close>

lemma handleDDLJobQueue_step_lease_wraps:
  "2 * lease (env0\<lparr>lease := 2 ^ 63\<rparr>) = 0
   \<and> handleDDLJobQueue_step (env0\<lparr>lease := 2 ^ 63\<rparr>) False False asOwner
      (world0\<lparr>defaultJobs := [addColumnJob]\<rparr>)
     = Continue False
        (world0\<lparr>defaultJobs := [addColumnJob\<lparr>State := JobStateDone, SchemaState := StatePublic,
                                              RawArgs := Some ''null''\<rparr>],
                schemaData := 1, txnStartTS := 100,
                calls := [CallOnJobRunBefore 5, CallHandler ActionAddColumn 5,
                          CallOnJobUpdated 5]\<rparr>)"
  by (simp add: run_defs example_defs)

section \<open>The calls recorded by the functions\<close>

lemma addsOnly_app:
  "calls w' = calls w @ xs \<Longrightarrow> list_all ok xs \<Longrightarrow> addsOnly ok w w'"
  by (simp add: addsOnly_def newCalls_def)

lemma addsOnly_same: "calls w' = calls w \<Longrightarrow> addsOnly ok w w'"
  by (simp add: addsOnly_def newCalls_def)

lemma addsOnly_refl: "addsOnly ok w w"
  by (simp add: addsOnly_same)

lemma addsOnly_dest:
  "addsOnly ok w w' \<Longrightarrow> calls w' = calls w @ newCalls w w' \<and> list_all ok (newCalls w w')"
  by (metis addsOnly_def append_take_drop_id newCalls_def)

lemma addsOnly_obtain:
  assumes "addsOnly ok w w'"
  obtains xs where "calls w' = calls w @ xs" and "newCalls w w' = xs" and "list_all ok xs"
  using addsOnly_dest[OF assms] by blast

lemma newCalls_app: "calls w' = calls w @ xs \<Longrightarrow> newCalls w w' = xs"
  by (simp add: newCalls_def)

lemma addsOnly_trans:
  assumes "addsOnly ok a b" and "addsOnly ok b c"
  shows "addsOnly ok a c"
proof -
  from assms(1) obtain xs where xs: "calls b = calls a @ xs" "list_all ok xs"
    by (rule addsOnly_obtain)
  from assms(2) obtain ys where ys: "calls c = calls b @ ys" "list_all ok ys"
    by (rule addsOnly_obtain)
  from xs ys have "calls c = calls a @ (xs @ ys)" "list_all ok (xs @ ys)" by simp_all
  then show ?thesis by (rule addsOnly_app)
qed

lemma newCalls_trans:
  assumes "addsOnly ok a b" and "addsOnly ok' b c"
  shows "newCalls a c = newCalls a b @ newCalls b c"
proof -
  from assms(1) obtain xs where xs: "calls b = calls a @ xs" "newCalls a b = xs"
    by (rule addsOnly_obtain)
  from assms(2) obtain ys where ys: "calls c = calls b @ ys" "newCalls b c = ys"
    by (rule addsOnly_obtain)
  from xs ys have "calls c = calls a @ (xs @ ys)" by simp
  from newCalls_app[OF this] xs ys show ?thesis by simp
qed

lemma addsOnly_record: "ok c \<Longrightarrow> addsOnly ok w (record_call c w)"
  by (rule addsOnly_app[where xs = "[c]"]) simp_all

lemma finishDDLJob_adds:
  assumes "\<And>i. ok (CallAddDelRangeJob i)" and "finishDDLJob env t j = (t', j', err)"
  shows "addsOnly ok t t'"
  using finishDDLJob_effect[OF assms(2)] assms(1)
  by (intro addsOnly_app[where xs = "if needsDeleteRange j \<and> Version j \<le> currentVersion env
        then [CallAddDelRangeJob (ID j)] else []"]) auto

lemma dispatch_adds:
  assumes "\<And>ty i. ok (CallHandler ty i)" and "dispatch env t j = (t', j', ver, err)"
  shows "addsOnly ok t t'"
proof -
  have "t' = t \<or> (\<exists>s'. t' = record_call (CallHandler (Type j) (ID j)) (t\<lparr>schemaData := s'\<rparr>))"
    using assms(2)
    by (cases "Type j") (auto simp: dispatch_def callHandler_def split: prod.splits)
  then show ?thesis
  proof
    assume "t' = t" then show ?thesis by (simp add: addsOnly_refl)
  next
    assume "\<exists>s'. t' = record_call (CallHandler (Type j) (ID j)) (t\<lparr>schemaData := s'\<rparr>)"
    then have "calls t' = calls t @ [CallHandler (Type j) (ID j)]" by auto
    then show ?thesis by (rule addsOnly_app) (simp add: assms(1))
  qed
qed

lemma runDDLJob_adds:
  assumes h: "\<And>ty i. ok (CallHandler ty i)" and n: "ok CallNotifyReorgCancel"
    and run: "runDDLJob env t j = (t', j', ver, err)"
  shows "addsOnly ok t t'"
proof (cases "IsFinished j \<or> (IsCancelling j
              \<and> \<not> (Type j = ActionAddIndex \<and> SchemaState j = StateWriteReorganization
                    \<and> SnapshotVer j \<noteq> 0))")
  case True
  with run have "t' = t" by (auto simp: runDDLJob_def split: if_splits)
  then show ?thesis by (simp add: addsOnly_refl)
next
  case False
  let ?t1 = "if IsCancelling j then record_call CallNotifyReorgCancel t else t"
  let ?j1 = "if \<not> IsRollingback j \<and> \<not> IsCancelling j then j\<lparr>State := JobStateRunning\<rparr> else j"
  obtain t2 j2 v e where d: "dispatch env ?t1 ?j1 = (t2, j2, v, e)"
    by (cases "dispatch env ?t1 ?j1") auto
  with False run have "t' = t2"
    by (auto simp: runDDLJob_def Let_def split: option.splits if_splits)
  moreover have "addsOnly ok t ?t1" using n by (simp add: addsOnly_refl addsOnly_record)
  moreover have "addsOnly ok ?t1 t2"
    by (rule dispatch_adds[where ok = ok, rotated, OF d]) (rule h)
  ultimately show ?thesis using addsOnly_trans by blast
qed

lemma updateDDLJob_calls:
  "updateDDLJob env t j b = Inr t' \<Longrightarrow> calls t' = calls t"
  by (auto simp: updateDDLJob_def UpdateDDLJob_def Let_def setQueueJobs_def
      split: option.splits if_splits)

lemma handleUpdateJobError_adds:
  assumes "\<And>i. ok (CallAddDelRangeJob i)" and "handleUpdateJobError env t j e = (t', j', err)"
  shows "addsOnly ok t t'"
proof (cases "e = Some (TError ErrEntryTooLarge)")
  case True
  with assms(2) obtain j1 where "finishDDLJob env t j1 = (t', j', err)"
    by (auto simp: handleUpdateJobError_def)
  then show ?thesis
    by (rule finishDDLJob_adds[where ok = ok, rotated]) (rule assms(1))
next
  case False
  with assms(2) have "t' = t"
    by (auto simp: handleUpdateJobError_def split: option.splits if_splits)
  then show ?thesis by (simp add: addsOnly_refl)
qed

lemma waitSchemaChanged_adds:
  assumes "\<And>v. ok (CallOwnerUpdateGlobalVersion v)" and "\<And>v. ok (CallOwnerCheckAllVersions v)"
    and "ok CallCtxDone"
  shows "addsOnly ok w (waitSchemaChanged env ctx waitTime v w)"
proof (cases "waitTime = 0 \<or> v = 0")
  case True
  then show ?thesis by (simp add: waitSchemaChanged_skip addsOnly_refl)
next
  case False
  then obtain rest where "calls (waitSchemaChanged env ctx waitTime v w)
       = calls w @ CallOwnerUpdateGlobalVersion v # rest"
    and "set rest \<subseteq> {CallOwnerCheckAllVersions v, CallCtxDone}"
    using waitSchemaChanged_calls[of waitTime v env ctx w] by auto
  then show ?thesis using assms
    by (intro addsOnly_app[where xs = "CallOwnerUpdateGlobalVersion v # rest"])
      (auto simp: list_all_iff)
qed






lemma txnBody_noonce:
  assumes "txnBody env False False isOwner wt txn = (t', out, err)"
  shows "out_once out = False \<and> addsOnly notResync txn t'"
proof (cases "isOwner")
  case False
  with assms show ?thesis by (auto simp: txnBody_def addsOnly_refl)
next
  case True
  note own = this
  let ?t = "NewMeta txn"
  have t: "addsOnly notResync txn ?t" by (rule addsOnly_same) (simp add: NewMeta_def)
  show ?thesis
  proof (cases "getFirstDDLJob env ?t")
    case (Inl e)
    with assms own have "t' = ?t" "out_once out = False" by (auto simp: txnBody_def Let_def)
    with t show ?thesis by simp
  next
    case (Inr r)
    show ?thesis
    proof (cases r)
      case None
      with Inr assms own have "t' = ?t" "out_once out = False" by (auto simp: txnBody_def Let_def)
      with t show ?thesis by simp
    next
      case (Some j)
      show ?thesis
      proof (cases "IsDone j \<or> IsRollbackDone j")
        case True
        let ?t1 = "record_call (CallSetDDLBinlog (ID j) (Query j)) ?t"
        from True Some Inr assms own obtain j1 j2 where
          f: "finishDDLJob env ?t1 j1 = (t', j2, err)" and o: "out_once out = False"
          by (auto simp: txnBody_def Let_def split: prod.splits)
        have "addsOnly notResync ?t ?t1" by (simp add: addsOnly_record)
        moreover have "addsOnly notResync ?t1 t'"
          by (rule finishDDLJob_adds[where ok = notResync, rotated, OF f]) simp
        ultimately show ?thesis using t o addsOnly_trans by blast
      next
        case False
        let ?t1 = "record_call (CallOnJobRunBefore (ID j)) ?t"
        obtain t2 j2 ver rerr where run: "runDDLJob env ?t1 j = (t2, j2, ver, rerr)"
          by (cases "runDDLJob env ?t1 j") auto
        have a1: "addsOnly notResync ?t ?t1" by (simp add: addsOnly_record)
        have a2: "addsOnly notResync ?t1 t2"
          by (rule runDDLJob_adds[where ok = notResync, rotated 2, OF run]) simp_all
        have "out_once out = False \<and> addsOnly notResync t2 t'"
        proof (cases "IsCancelled j2")
          case True
          with False Some Inr assms own run obtain j3 where
            f: "finishDDLJob env t2 j2 = (t', j3, err)" and o: "out_once out = False"
            by (auto simp: txnBody_def Let_def split: prod.splits)
          have "addsOnly notResync t2 t'"
            by (rule finishDDLJob_adds[where ok = notResync, rotated, OF f]) simp
          with o show ?thesis by simp
        next
          case nc: False
          show ?thesis
          proof (cases "updateDDLJob env t2 j2 (rerr \<noteq> None)")
            case (Inl e)
            with nc False Some Inr assms own run obtain j4 where
              h: "handleUpdateJobError env t2 j2 (Some e) = (t', j4, err)"
              and o: "out_once out = False"
              by (auto simp: txnBody_def Let_def split: prod.splits)
            have "addsOnly notResync t2 t'"
              by (rule handleUpdateJobError_adds[where ok = notResync, rotated, OF h]) simp
            with o show ?thesis by simp
          next
            case (Inr t3)
            with nc False Some \<open>getFirstDDLJob env ?t = Inr r\<close> assms own run
            have "t' = t3" "out_once out = False"
              by (auto simp: txnBody_def Let_def handleUpdateJobError_def split: prod.splits)
            with updateDDLJob_calls[OF Inr] show ?thesis by (simp add: addsOnly_same)
          qed
        qed
        with t a1 a2 show ?thesis using addsOnly_trans by blast
      qed
    qed
  qed
qed

lemma RunInNewTxn_calls:
  assumes "f (w\<lparr>txnStartTS := startTS inp\<rparr>) = (w1, r, e)"
    and "RunInNewTxn inp f w = (w2, r', e')"
  shows "calls w2 = calls w1 \<and> r' = r"
  using assms by (auto simp: RunInNewTxn_def rollback_def split: option.splits)

lemma step_after_txn:
  assumes s: "ok CallSleep" and u: "\<And>i. ok (CallOnJobUpdated i)" and n: "ok CallNotifyJobDone"
    and v1: "\<And>v. ok (CallOwnerUpdateGlobalVersion v)"
    and v2: "\<And>v. ok (CallOwnerCheckAllVersions v)" and v3: "ok CallCtxDone"
    and nc: "\<not> closed inp"
    and txn: "RunInNewTxn inp (txnBody env sc once (owner inp) (2 * lease env)) w = (w1, out, err)"
    and step: "handleDDLJobQueue_step env sc once inp w = Return w' e'
               \<or> handleDDLJobQueue_step env sc once inp w = Continue once' w'"
  shows "addsOnly ok w1 w'
    \<and> (handleDDLJobQueue_step env sc once inp w = Continue once' w' \<longrightarrow>
          once' = out_once out \<and> out_job out \<noteq> None)"
proof -
  let ?w2 = "if out_runJobErr out \<noteq> None then record_call CallSleep w1 else w1"
  have a2: "addsOnly ok w1 ?w2" using s by (simp add: addsOnly_refl addsOnly_record)
  show ?thesis
  proof (cases "err \<noteq> None \<or> out_job out = None")
    case True
    with step txn nc have "w' = ?w2 \<and> handleDDLJobQueue_step env sc once inp w = Return w' e'"
      by (auto simp: handleDDLJobQueue_step_def Let_def split: option.splits)
    with a2 show ?thesis by simp
  next
    case False
    then obtain j where j: "out_job out = Some j" and e: "err = None" by auto
    let ?w3 = "record_call (CallOnJobUpdated (ID j)) ?w2"
    let ?w4 = "if IsRunning j \<or> IsRollingback j \<or> IsDone j \<or> IsRollbackDone j
               then waitSchemaChanged env None (2 * lease env) (out_schemaVer out) ?w3 else ?w3"
    let ?w5 = "if IsSynced j then record_call CallNotifyJobDone ?w4 else ?w4"
    from step txn nc j e have r: "w' = ?w5"
      and c: "handleDDLJobQueue_step env sc once inp w = Continue once' w' \<longrightarrow>
          once' = out_once out \<and> out_job out \<noteq> None"
      by (auto simp: handleDDLJobQueue_step_def Let_def)
    have a3: "addsOnly ok ?w2 ?w3" using u by (rule addsOnly_record)
    have a4: "addsOnly ok ?w3 ?w4"
      using waitSchemaChanged_adds[where ok = ok and env = env and ctx = None
          and waitTime = "2 * lease env" and v = "out_schemaVer out" and w = ?w3, OF v1 v2 v3]
      by (simp add: addsOnly_refl)
    have a5: "addsOnly ok ?w4 ?w5" using n by (simp add: addsOnly_refl addsOnly_record)
    from a2 a3 a4 a5 have "addsOnly ok w1 ?w5" using addsOnly_trans by blast
    with r c show ?thesis by simp
  qed
qed

lemma step_noonce:
  assumes "handleDDLJobQueue_step env False False inp w = Return w' e'
           \<or> handleDDLJobQueue_step env False False inp w = Continue once' w'"
  shows "addsOnly notResync w w'
    \<and> (handleDDLJobQueue_step env False False inp w = Continue once' w' \<longrightarrow> once' = False)"
proof (cases "closed inp")
  case True
  with assms have "w' = w \<and> handleDDLJobQueue_step env False False inp w = Return w' e'"
    by (auto simp: handleDDLJobQueue_step_def)
  then show ?thesis by (simp add: addsOnly_refl)
next
  case False
  let ?txn = "w\<lparr>txnStartTS := startTS inp\<rparr>"
  obtain t1 out e where b: "txnBody env False False (owner inp) (2 * lease env) ?txn = (t1, out, e)"
    by (cases "txnBody env False False (owner inp) (2 * lease env) ?txn") auto
  obtain w1 out' err where r: "RunInNewTxn inp (txnBody env False False (owner inp) (2 * lease env)) w
      = (w1, out', err)"
    by (cases "RunInNewTxn inp (txnBody env False False (owner inp) (2 * lease env)) w") auto
  from RunInNewTxn_calls[OF b r] have c: "calls w1 = calls t1" and o: "out' = out" by simp_all
  from txnBody_noonce[OF b] have once: "out_once out = False" and a0: "addsOnly notResync ?txn t1"
    by simp_all
  have "addsOnly notResync w ?txn" by (rule addsOnly_same) simp
  moreover have "addsOnly notResync t1 w1" using c by (rule addsOnly_same)
  moreover note a0
  ultimately have a1: "addsOnly notResync w w1" using addsOnly_trans by blast
  have "addsOnly notResync w1 w'
    \<and> (handleDDLJobQueue_step env False False inp w = Continue once' w' \<longrightarrow>
          once' = out_once out' \<and> out_job out' \<noteq> None)"
    by (rule step_after_txn[where ok = notResync, OF _ _ _ _ _ _ False r assms]) simp_all
  with a1 o once show ?thesis using addsOnly_trans by blast
qed

lemma loop_noonce:
  "handleDDLJobQueue_loop env False False ins w = Some (w', err) \<Longrightarrow> addsOnly notResync w w'"
proof (induction ins arbitrary: w)
  case Nil
  then show ?case by simp
next
  case (Cons inp ins)
  show ?case
  proof (cases "handleDDLJobQueue_step env False False inp w")
    case (Return w1 e)
    with Cons.prems have "w1 = w'" by simp
    with Return step_noonce[of env inp w w' e] show ?thesis by simp
  next
    case (Continue once' w1)
    from step_noonce[of env inp w w1 _ once'] Continue
    have a: "addsOnly notResync w w1" and o: "once' = False" by simp_all
    from Continue Cons.prems o have "handleDDLJobQueue_loop env False False ins w1 = Some (w', err)"
      by simp
    from Cons.IH[OF this] a show ?thesis using addsOnly_trans by blast
  qed
qed

lemma waitSchemaChanged_frame:
  "waitSchemaChanged env ctx wt v w = w\<lparr>calls := calls (waitSchemaChanged env ctx wt v w)\<rparr>"
  by (simp add: waitSchemaChanged_def Let_def record_call_def split: option.splits)

lemma waitSchemaSynced_frame:
  "waitSchemaSynced env j wt w = w\<lparr>calls := calls (waitSchemaSynced env j wt w)\<rparr>"
proof (cases "mustGetGlobalVersion env (TimeoutCtx wt)")
  case (Inl e)
  then show ?thesis by (simp add: waitSchemaSynced_def Let_def record_call_def)
next
  case (Inr v)
  let ?w1 = "record_call CallMustGetGlobalVersion w"
  have "waitSchemaChanged env (Some (TimeoutCtx wt)) wt v ?w1
      = w\<lparr>calls := calls (waitSchemaChanged env (Some (TimeoutCtx wt)) wt v ?w1)\<rparr>"
    using waitSchemaChanged_frame[of env "Some (TimeoutCtx wt)" wt v ?w1]
    by (simp add: record_call_def)
  with Inr show ?thesis by (simp add: waitSchemaSynced_def Let_def)
qed

lemma waitSchemaChanged_calls_cong:
  assumes "calls w1 = calls w2"
  shows "calls (waitSchemaChanged env ctx wt v w1) = calls (waitSchemaChanged env ctx wt v w2)"
proof (cases "wt = 0 \<or> v = 0")
  case True
  with assms show ?thesis by (simp add: waitSchemaChanged_skip)
next
  case False
  let ?c = "case ctx of None \<Rightarrow> TimeoutCtx wt | Some c \<Rightarrow> c"
  show ?thesis
  proof (cases "ownerUpdateGlobalVersion env ?c v = Some DeadlineExceeded")
    case True
    with False assms show ?thesis by (simp add: waitSchemaChanged_def Let_def)
  next
    case upd: False
    show ?thesis
    proof (cases "ownerCheckAllVersions env ?c v")
      case None
      with upd False assms show ?thesis by (simp add: waitSchemaChanged_def Let_def)
    next
      case (Some e)
      with upd False assms show ?thesis by (simp add: waitSchemaChanged_def Let_def)
    qed
  qed
qed

lemma waitSchemaSynced_calls_cong:
  assumes "calls w1 = calls w2"
  shows "calls (waitSchemaSynced env j wt w1) = calls (waitSchemaSynced env j wt w2)"
proof (cases "\<not> IsRunning j \<and> \<not> IsRollingback j \<and> \<not> IsDone j \<and> \<not> IsRollbackDone j")
  case True
  with assms show ?thesis by (simp add: waitSchemaSynced_def)
next
  case False
  show ?thesis
  proof (cases "mustGetGlobalVersion env (TimeoutCtx wt)")
    case (Inl e)
    with False assms show ?thesis by (auto simp: waitSchemaSynced_def Let_def)
  next
    case (Inr v)
    have "calls (record_call CallMustGetGlobalVersion w1)
        = calls (record_call CallMustGetGlobalVersion w2)"
      using assms by simp
    from waitSchemaChanged_calls_cong[OF this, of env "Some (TimeoutCtx wt)" wt v] Inr False
    show ?thesis
      by (auto simp: waitSchemaSynced_def Let_def)
  qed
qed

lemma count_notResync:
  "list_all (\<lambda>c. c \<noteq> CallMustGetGlobalVersion) ys \<Longrightarrow> count_list ys CallMustGetGlobalVersion = 0"
  by (induction ys) auto

lemma waitSchemaSynced_calls:
  "\<exists>xs. calls (waitSchemaSynced env j wt w) = calls w @ xs
     \<and> count_list xs CallMustGetGlobalVersion \<le> 1 \<and> list_all (\<lambda>c. \<not> isHandlerCall c) xs"
proof (cases "(\<not> IsRunning j \<and> \<not> IsRollingback j \<and> \<not> IsDone j \<and> \<not> IsRollbackDone j)
              \<or> (\<exists>e. mustGetGlobalVersion env (TimeoutCtx wt) = Inl e)")
  case True
  then have "calls (waitSchemaSynced env j wt w) = calls w @ []
             \<or> calls (waitSchemaSynced env j wt w) = calls w @ [CallMustGetGlobalVersion]"
    by (auto simp: waitSchemaSynced_def Let_def)
  then show ?thesis by (elim disjE) (rule exI, erule conjI, simp)+
next
  case False
  then obtain v where v: "mustGetGlobalVersion env (TimeoutCtx wt) = Inr v"
    by (cases "mustGetGlobalVersion env (TimeoutCtx wt)") auto
  let ?w1 = "record_call CallMustGetGlobalVersion w"
  let ?w2 = "waitSchemaChanged env (Some (TimeoutCtx wt)) wt v ?w1"
  from False v have r: "waitSchemaSynced env j wt w = ?w2"
    by (auto simp: waitSchemaSynced_def Let_def)
  have "addsOnly (\<lambda>c. c \<noteq> CallMustGetGlobalVersion \<and> \<not> isHandlerCall c) ?w1 ?w2"
    by (rule waitSchemaChanged_adds) simp_all
  then obtain ys where ys: "calls ?w2 = calls ?w1 @ ys"
    and ok: "list_all (\<lambda>c. c \<noteq> CallMustGetGlobalVersion \<and> \<not> isHandlerCall c) ys"
    by (rule addsOnly_obtain)
  from ok have "list_all (\<lambda>c. c \<noteq> CallMustGetGlobalVersion) ys" "list_all (\<lambda>c. \<not> isHandlerCall c) ys"
    by (simp_all add: list_all_iff)
  with count_notResync[of ys] ys r
  have "calls (waitSchemaSynced env j wt w) = calls w @ (CallMustGetGlobalVersion # ys)
     \<and> count_list (CallMustGetGlobalVersion # ys) CallMustGetGlobalVersion \<le> 1
     \<and> list_all (\<lambda>c. \<not> isHandlerCall c) (CallMustGetGlobalVersion # ys)"
    by simp
  then show ?thesis by blast
qed

lemma txnBody_once:
  "txnBody env False True isOwner wt txn =
     (if \<not> isOwner
      then (txn, \<lparr>out_job = None, out_schemaVer = 0, out_runJobErr = None, out_once = True\<rparr>, None)
      else (case getFirstDDLJob env (NewMeta txn) of
              Inl e \<Rightarrow> (NewMeta txn,
                        \<lparr>out_job = None, out_schemaVer = 0, out_runJobErr = None, out_once = True\<rparr>,
                        Some e)
            | Inr None \<Rightarrow> (NewMeta txn,
                        \<lparr>out_job = None, out_schemaVer = 0, out_runJobErr = None, out_once = True\<rparr>,
                        None)
            | Inr (Some j) \<Rightarrow> (waitSchemaSynced env j wt (NewMeta txn),
                        \<lparr>out_job = Some j, out_schemaVer = 0, out_runJobErr = None, out_once = False\<rparr>,
                        None)))"
  by (simp add: txnBody_def Let_def split: sum.splits option.splits)

lemma first_round:
  assumes "\<not> closed inp" and "owner inp" and "commitErr inp = None"
    and "getFirstDDLJob env (NewMeta (w\<lparr>txnStartTS := startTS inp\<rparr>)) = Inr (Some j)"
  shows "handleDDLJobQueue_step env False True inp w =
     Continue False
       (let t = waitSchemaSynced env j (2 * lease env) (NewMeta (w\<lparr>txnStartTS := startTS inp\<rparr>));
            w3 = record_call (CallOnJobUpdated (ID j)) t
        in if IsSynced j then record_call CallNotifyJobDone w3 else w3)"
  using assms
  by (simp add: handleDDLJobQueue_step_def RunInNewTxn_def txnBody_once Let_def
      waitSchemaChanged_skip)

lemma step_once_count:
  assumes "handleDDLJobQueue_step env False True inp w = Return w' e'
           \<or> handleDDLJobQueue_step env False True inp w = Continue once' w'"
  shows "(\<exists>xs. calls w' = calls w @ xs \<and> count_list xs CallMustGetGlobalVersion \<le> 1)
    \<and> (handleDDLJobQueue_step env False True inp w = Continue once' w' \<longrightarrow> once' = False)"
proof (cases "closed inp")
  case True
  with assms have "w' = w \<and> handleDDLJobQueue_step env False True inp w = Return w' e'"
    by (auto simp: handleDDLJobQueue_step_def)
  then show ?thesis by simp
next
  case False
  let ?txn = "w\<lparr>txnStartTS := startTS inp\<rparr>"
  obtain t1 out e where b: "txnBody env False True (owner inp) (2 * lease env) ?txn = (t1, out, e)"
    by (cases "txnBody env False True (owner inp) (2 * lease env) ?txn") auto
  obtain w1 out' err where r: "RunInNewTxn inp (txnBody env False True (owner inp) (2 * lease env)) w
      = (w1, out', err)"
    by (cases "RunInNewTxn inp (txnBody env False True (owner inp) (2 * lease env)) w") auto
  from RunInNewTxn_calls[OF b r] have c: "calls w1 = calls t1" and o: "out' = out" by simp_all
  have t1: "(t1 = ?txn \<or> t1 = NewMeta ?txn
             \<or> (\<exists>j. t1 = waitSchemaSynced env j (2 * lease env) (NewMeta ?txn)))
            \<and> (out_job out \<noteq> None \<longrightarrow> out_once out = False)"
    using b by (auto simp: txnBody_once split: if_splits sum.splits option.splits)
  have "\<exists>xs. calls t1 = calls w @ xs \<and> count_list xs CallMustGetGlobalVersion \<le> 1"
  proof -
    from t1 consider "calls t1 = calls w"
      | j where "t1 = waitSchemaSynced env j (2 * lease env) (NewMeta ?txn)"
      by (auto simp: NewMeta_def)
    then show ?thesis
    proof cases
      case 1
      then show ?thesis by simp
    next
      case 2
      with waitSchemaSynced_calls[of env j "2 * lease env" "NewMeta ?txn"]
      obtain xs where "calls t1 = calls (NewMeta ?txn) @ xs"
        "count_list xs CallMustGetGlobalVersion \<le> 1" by auto
      moreover have "calls (NewMeta ?txn) = calls w" by (simp add: NewMeta_def)
      ultimately have "calls t1 = calls w @ xs \<and> count_list xs CallMustGetGlobalVersion \<le> 1"
        by simp
      then show ?thesis by blast
    qed
  qed
  then obtain xs where xs: "calls w1 = calls w @ xs" "count_list xs CallMustGetGlobalVersion \<le> 1"
    using c by auto
  have post: "addsOnly (\<lambda>c. c \<noteq> CallMustGetGlobalVersion) w1 w'
    \<and> (handleDDLJobQueue_step env False True inp w = Continue once' w' \<longrightarrow>
          once' = out_once out' \<and> out_job out' \<noteq> None)"
    by (rule step_after_txn[where ok = "\<lambda>c. c \<noteq> CallMustGetGlobalVersion",
          OF _ _ _ _ _ _ False r assms]) simp_all
  then obtain ys where ys: "calls w' = calls w1 @ ys"
    "list_all (\<lambda>c. c \<noteq> CallMustGetGlobalVersion) ys"
    using addsOnly_obtain by blast
  from xs ys count_notResync[OF ys(2)]
  have "calls w' = calls w @ (xs @ ys) \<and> count_list (xs @ ys) CallMustGetGlobalVersion \<le> 1"
    by simp
  then have "\<exists>zs. calls w' = calls w @ zs \<and> count_list zs CallMustGetGlobalVersion \<le> 1"
    by blast
  with post t1 o show ?thesis by auto
qed

lemma pass_once_count:
  assumes "handleDDLJobQueue env False ins w = Some (w', err)"
  shows "count_list (newCalls w w') CallMustGetGlobalVersion \<le> 1"
proof (cases ins)
  case Nil
  with assms show ?thesis by (simp add: handleDDLJobQueue_def)
next
  case (Cons inp rest)
  show ?thesis
  proof (cases "handleDDLJobQueue_step env False True inp w")
    case (Return w1 e)
    with assms Cons have "w1 = w'" by (simp add: handleDDLJobQueue_def)
    with Return step_once_count[of env inp w w' e] obtain xs where
      "calls w' = calls w @ xs" "count_list xs CallMustGetGlobalVersion \<le> 1" by auto
    then show ?thesis by (simp add: newCalls_def)
  next
    case (Continue once' w1)
    from step_once_count[of env inp w w1 _ once'] Continue obtain xs where
      xs: "calls w1 = calls w @ xs" "count_list xs CallMustGetGlobalVersion \<le> 1"
      and o: "once' = False" by auto
    from Continue assms Cons o
    have "handleDDLJobQueue_loop env False False rest w1 = Some (w', err)"
      by (simp add: handleDDLJobQueue_def)
    from loop_noonce[OF this] obtain ys where ys: "calls w' = calls w1 @ ys"
      "list_all (\<lambda>c. c \<noteq> CallMustGetGlobalVersion) ys"
      using addsOnly_obtain by blast
    from xs ys count_notResync[OF ys(2)]
    have "calls w' = calls w @ (xs @ ys)" "count_list (xs @ ys) CallMustGetGlobalVersion \<le> 1"
      by simp_all
    then show ?thesis by (simp add: newCalls_def)
  qed
qed

section \<open>The drain pass and the worker loop\<close>

text \<open>
  Claim C4, as amended. The version-resynchronization wait runs at most once in every
  drain pass, that is in every call of \<open>handleDDLJobQueue\<close>: in the first round of the
  pass in which the process is the owner and finds a head job, the worker runs
  \<open>waitSchemaSynced\<close> instead of dispatching that job (no handler is called and the store
  is left as it was), and the pass then goes on with the next round, in which the job is
  processed; no later round of the pass reads the global version again.
\<close>

theorem handleDDLJobQueue_resync:
  "(\<not> closed inp \<and> owner inp \<and> commitErr inp = None
      \<and> getFirstDDLJob env (NewMeta (w\<lparr>txnStartTS := startTS inp\<rparr>)) = Inr (Some j)
    \<longrightarrow> (\<exists>w1. handleDDLJobQueue env False (inp # ins) w
                 = handleDDLJobQueue_loop env False False ins w1
              \<and> calls w1 = calls (waitSchemaSynced env j (2 * lease env) w)
                            @ CallOnJobUpdated (ID j)
                              # (if IsSynced j then [CallNotifyJobDone] else [])
              \<and> list_all (\<lambda>c. \<not> isHandlerCall c) (newCalls w w1)
              \<and> defaultJobs w1 = defaultJobs w \<and> addIndexJobs w1 = addIndexJobs w
              \<and> historyJobs w1 = historyJobs w \<and> schemaData w1 = schemaData w))
   \<and> (handleDDLJobQueue_loop env False False ins2 w2 = Some (w2', err2)
        \<longrightarrow> CallMustGetGlobalVersion \<notin> set (newCalls w2 w2'))
   \<and> (handleDDLJobQueue env False ins3 w3 = Some (w3', err3)
        \<longrightarrow> count_list (newCalls w3 w3') CallMustGetGlobalVersion \<le> 1)"
proof (intro conjI impI)
  assume a: "\<not> closed inp \<and> owner inp \<and> commitErr inp = None
      \<and> getFirstDDLJob env (NewMeta (w\<lparr>txnStartTS := startTS inp\<rparr>)) = Inr (Some j)"
  let ?m = "NewMeta (w\<lparr>txnStartTS := startTS inp\<rparr>)"
  let ?t = "waitSchemaSynced env j (2 * lease env) ?m"
  let ?w3 = "record_call (CallOnJobUpdated (ID j)) ?t"
  let ?w1 = "if IsSynced j then record_call CallNotifyJobDone ?w3 else ?w3"
  from a first_round[of inp env w j]
  have "handleDDLJobQueue_step env False True inp w = Continue False ?w1"
    by (simp add: Let_def)
  then have p: "handleDDLJobQueue env False (inp # ins) w
                 = handleDDLJobQueue_loop env False False ins ?w1"
    by (simp add: handleDDLJobQueue_def)
  have same: "waitSchemaSynced env j (2 * lease env) ?m
      = ?m\<lparr>calls := calls (waitSchemaSynced env j (2 * lease env) w)\<rparr>"
  proof -
    have "calls ?m = calls w" by (simp add: NewMeta_def)
    then have "calls (waitSchemaSynced env j (2 * lease env) ?m)
        = calls (waitSchemaSynced env j (2 * lease env) w)"
      by (rule waitSchemaSynced_calls_cong)
    then show ?thesis
      by (subst waitSchemaSynced_frame[of env j "2 * lease env" ?m]) simp
  qed
  obtain xs where xs: "calls (waitSchemaSynced env j (2 * lease env) w) = calls w @ xs"
    "list_all (\<lambda>c. \<not> isHandlerCall c) xs"
    using waitSchemaSynced_calls[of env j "2 * lease env" w] by blast
  have c: "calls ?w1 = calls (waitSchemaSynced env j (2 * lease env) w)
                            @ CallOnJobUpdated (ID j)
                              # (if IsSynced j then [CallNotifyJobDone] else [])"
    by (simp add: same)
  with xs have "calls ?w1 = calls w @ (xs @ CallOnJobUpdated (ID j)
                              # (if IsSynced j then [CallNotifyJobDone] else []))"
    by simp
  from newCalls_app[OF this] xs(2)
  have h: "list_all (\<lambda>c. \<not> isHandlerCall c) (newCalls w ?w1)" by simp
  have "defaultJobs ?t = defaultJobs ?m \<and> addIndexJobs ?t = addIndexJobs ?m
              \<and> historyJobs ?t = historyJobs ?m \<and> schemaData ?t = schemaData ?m"
    by (simp add: same)
  then have f: "defaultJobs ?w1 = defaultJobs w \<and> addIndexJobs ?w1 = addIndexJobs w
              \<and> historyJobs ?w1 = historyJobs w \<and> schemaData ?w1 = schemaData w"
    by (simp add: NewMeta_def)
  from p c h f show "\<exists>w1. handleDDLJobQueue env False (inp # ins) w
                 = handleDDLJobQueue_loop env False False ins w1
              \<and> calls w1 = calls (waitSchemaSynced env j (2 * lease env) w)
                            @ CallOnJobUpdated (ID j)
                              # (if IsSynced j then [CallNotifyJobDone] else [])
              \<and> list_all (\<lambda>c. \<not> isHandlerCall c) (newCalls w w1)
              \<and> defaultJobs w1 = defaultJobs w \<and> addIndexJobs w1 = addIndexJobs w
              \<and> historyJobs w1 = historyJobs w \<and> schemaData w1 = schemaData w"
    by (intro exI[of _ ?w1]) blast
next
  assume "handleDDLJobQueue_loop env False False ins2 w2 = Some (w2', err2)"
  from loop_noonce[OF this] show "CallMustGetGlobalVersion \<notin> set (newCalls w2 w2')"
    by (auto simp: addsOnly_def list_all_iff)
next
  assume "handleDDLJobQueue env False ins3 w3 = Some (w3', err3)"
  then show "count_list (newCalls w3 w3') CallMustGetGlobalVersion \<le> 1"
    by (rule pass_once_count)
qed

theorem handleDDLJobQueue_resync_witness:
  "\<not> closed asOwner \<and> owner asOwner \<and> commitErr asOwner = None
   \<and> getFirstDDLJob env0 (NewMeta (world0\<lparr>defaultJobs := [runningJob], txnStartTS := startTS asOwner\<rparr>))
       = Inr (Some runningJob)
   \<and> handleDDLJobQueue_loop env0 False False [asOwner, asOwner, asOwner]
        (world0\<lparr>defaultJobs := [runningJob]\<rparr>)
      = Some (world0\<lparr>historyJobs :=
                       [5 \<mapsto> runningJob\<lparr>State := JobStateSynced, SchemaState := StatePublic,
                                        RawArgs := Some ''null'',
                                        BinlogInfo := (BinlogInfo job0)\<lparr>FinishedTS := 100\<rparr>\<rparr>],
                    schemaData := 1, txnStartTS := 100,
                    calls := [CallOnJobRunBefore 5, CallHandler ActionAddColumn 5,
                              CallOnJobUpdated 5, CallOwnerUpdateGlobalVersion 1,
                              CallOwnerCheckAllVersions 1, CallSetDDLBinlog 5 [],
                              CallOnJobUpdated 5, CallNotifyJobDone]\<rparr>, None)
   \<and> handleDDLJobQueue env0 False [asOwner, notOwner] (world0\<lparr>defaultJobs := [runningJob]\<rparr>)
      = Some (world0\<lparr>defaultJobs := [runningJob], txnStartTS := 100,
                    calls := [CallMustGetGlobalVersion, CallOwnerUpdateGlobalVersion 1,
                              CallOwnerCheckAllVersions 1, CallOnJobUpdated 5]\<rparr>, None)
   \<and> count_list
        (newCalls (world0\<lparr>defaultJobs := [runningJob]\<rparr>)
           (world0\<lparr>defaultJobs := [runningJob], txnStartTS := 100,
                   calls := [CallMustGetGlobalVersion, CallOwnerUpdateGlobalVersion 1,
                             CallOwnerCheckAllVersions 1, CallOnJobUpdated 5]\<rparr>))
        CallMustGetGlobalVersion \<le> 1"
  using handleDDLJobQueue_resync [where inp = asOwner and env = env0
      and w = "world0\<lparr>defaultJobs := [runningJob]\<rparr>" and j = runningJob and ins = "[notOwner]"
      and ?ins2.0 = "[asOwner, asOwner, asOwner]" and ?w2.0 = "world0\<lparr>defaultJobs := [runningJob]\<rparr>"
      and w2' = "world0\<lparr>historyJobs :=
                       [5 \<mapsto> runningJob\<lparr>State := JobStateSynced, SchemaState := StatePublic,
                                        RawArgs := Some ''null'',
                                        BinlogInfo := (BinlogInfo job0)\<lparr>FinishedTS := 100\<rparr>\<rparr>],
                    schemaData := 1, txnStartTS := 100,
                    calls := [CallOnJobRunBefore 5, CallHandler ActionAddColumn 5,
                              CallOnJobUpdated 5, CallOwnerUpdateGlobalVersion 1,
                              CallOwnerCheckAllVersions 1, CallSetDDLBinlog 5 [],
                              CallOnJobUpdated 5, CallNotifyJobDone]\<rparr>"
      and ?err2.0 = None
      and ?ins3.0 = "[asOwner, notOwner]" and ?w3.0 = "world0\<lparr>defaultJobs := [runningJob]\<rparr>"
      and w3' = "world0\<lparr>defaultJobs := [runningJob], txnStartTS := 100,
                    calls := [CallMustGetGlobalVersion, CallOwnerUpdateGlobalVersion 1,
                              CallOwnerCheckAllVersions 1, CallOnJobUpdated 5]\<rparr>"
      and ?err3.0 = None]
  by (simp add: run_defs example_defs newCalls_def)

text \<open>
  Claim C4 as stated ends the pass after the wait. A pass of four rounds on a queue
  holding one running job waits in its first round, runs the handler in its second,
  finalizes the job in its third and returns in its fourth, when the queue is empty.
\<close>

theorem handleDDLJobQueue_pass_goes_on:
  "handleDDLJobQueue env0 False [asOwner, asOwner, asOwner, asOwner]
       (world0\<lparr>defaultJobs := [runningJob]\<rparr>)
     = Some (world0\<lparr>historyJobs :=
                       [5 \<mapsto> runningJob\<lparr>State := JobStateSynced, SchemaState := StatePublic,
                                        RawArgs := Some ''null'',
                                        BinlogInfo := (BinlogInfo job0)\<lparr>FinishedTS := 100\<rparr>\<rparr>],
                    schemaData := 1, txnStartTS := 100,
                    calls := [CallMustGetGlobalVersion, CallOwnerUpdateGlobalVersion 1,
                              CallOwnerCheckAllVersions 1, CallOnJobUpdated 5,
                              CallOnJobRunBefore 5, CallHandler ActionAddColumn 5,
                              CallOnJobUpdated 5, CallOwnerUpdateGlobalVersion 1,
                              CallOwnerCheckAllVersions 1, CallSetDDLBinlog 5 [],
                              CallOnJobUpdated 5, CallNotifyJobDone]\<rparr>, None)"
  by (simp add: run_defs example_defs)




end
